theory Spec2Isabelle
  imports Complex_Main
begin

section \<open>The piecewise-jerk speed problem: objective assembly\<close>

text \<open>
  A shallow embedding of
  \<^verbatim>\<open>modules/planning/math/piecewise_jerk/piecewise_jerk_speed_problem.cc\<close>.

  Numbers. \<^verbatim>\<open>c_float\<close> (a C double) is modelled by \<open>real\<close>: every arithmetic
  expression of the source is kept in its shape, evaluated exactly. Rounding, infinities
  and NaN are outside the model; in particular a division by \<open>delta_s_ * delta_s_ = 0\<close>
  (inf or NaN in C++, \<open>0\<close> in HOL) is outside it, so the theorems of the last section
  that speak of values containing this quotient assume a nonzero (positive) \<open>delta_s\<close>,
  as the specification requires of its input.

  Integers. An \<^verbatim>\<open>int\<close> of the source is a 32-bit signed integer: the model keeps its
  value as an \<open>int\<close> and passes every value the source stores in an \<^verbatim>\<open>int\<close> variable
  through \<open>int_result\<close>, which fails where the C++ arithmetic would overflow (undefined
  behaviour). This covers \<open>kNumParam = 3 * n\<close>, \<open>kNumValue = 4 * n - 1\<close>, every
  \<^verbatim>\<open>++value_index\<close> and every \<^verbatim>\<open>++ind_p\<close>. The conversion
  \<^verbatim>\<open>static_cast<int>(num_of_knots_)\<close> is the modular one, and a vector resized to a
  negative \<^verbatim>\<open>int\<close> (a huge \<^verbatim>\<open>size_t\<close>) fails with \<^verbatim>\<open>std::length_error\<close>. Once the
  declarations and the \<^verbatim>\<open>resize\<close> have succeeded, \<open>0 \<le> n\<close> and \<open>3 * n \<le> INT_MAX\<close>, so
  the index expressions \<open>n - 1\<close>, \<open>n + i\<close>, \<open>2 * n + i + 1\<close>, \<open>3 * n - 1\<close> and the loop
  counters lie between \<open>-1\<close> and \<open>3 * n\<close> and cannot overflow (lemma
  \<open>index_expressions_in_range\<close>); they are written without a check. \<^verbatim>\<open>c_int\<close> is at
  least as wide as \<^verbatim>\<open>int\<close> and is modelled by \<open>int\<close>. Running out of memory is outside
  the model.

  Failure. A failed \<^verbatim>\<open>CHECK_*\<close> aborts the process, \<^verbatim>\<open>vector::at\<close> out of range
  throws, and \<^verbatim>\<open>operator[]\<close> out of range is undefined behaviour. Each is a branch of
  the model that returns an \<open>error\<close>.
\<close>

subsection \<open>Data\<close>

type_synonym c_float = real
type_synonym c_int = int

datatype error =
    CheckFailed   \<comment> \<open>a \<^verbatim>\<open>CHECK_EQ\<close> / \<^verbatim>\<open>CHECK_NOTNULL\<close> that fails\<close>
  | OutOfRange    \<comment> \<open>an index outside a vector (\<^verbatim>\<open>at\<close> throws, \<^verbatim>\<open>[]\<close> is undefined)\<close>
  | IntOverflow   \<comment> \<open>signed \<^verbatim>\<open>int\<close> arithmetic leaves the 32-bit range (undefined)\<close>
  | LengthError   \<comment> \<open>\<^verbatim>\<open>resize\<close> to a negative \<^verbatim>\<open>int\<close>, a size beyond \<^verbatim>\<open>max_size\<close>\<close>

text \<open>The range of \<^verbatim>\<open>int\<close>, and the result of an arithmetic operation on \<^verbatim>\<open>int\<close>.\<close>

definition INT_MAX :: int where
  "INT_MAX = 2147483647"

definition INT_MIN :: int where
  "INT_MIN = - 2147483648"

definition int_result :: "int \<Rightarrow> error + int" where
  "int_result x = (if INT_MIN \<le> x \<and> x \<le> INT_MAX then Inr x else Inl IntOverflow)"

text \<open>\<^verbatim>\<open>static_cast<int>\<close> of a \<^verbatim>\<open>size_t\<close>: the value modulo \<open>2\<^sup>3\<^sup>2\<close>, read as signed.\<close>

definition static_cast_int :: "nat \<Rightarrow> int" where
  "static_cast_int k =
     (let m = int k mod 4294967296 in if m \<le> INT_MAX then m else m - 4294967296)"

text \<open>\<^verbatim>\<open>std::array<double, 3>\<close>, read at the constant indices 0, 1, 2.\<close>

datatype array3 = Array3 c_float c_float c_float

fun at3 :: "array3 \<Rightarrow> nat \<Rightarrow> c_float" where
  "at3 (Array3 a b c) i = (if i = 0 then a else if i = 1 then b else c)"

text \<open>
  The members read or written by this translation unit. Those up to \<open>end_state_ref\<close>
  are declared by the base class \<^verbatim>\<open>PiecewiseJerkProblem\<close>, the last four by
  \<^verbatim>\<open>PiecewiseJerkSpeedProblem\<close> itself.
\<close>

record PiecewiseJerkSpeedProblem =
  num_of_knots :: nat
  delta_s :: c_float
  weight_ddx :: c_float
  weight_dddx :: c_float
  has_x_ref :: bool
  weight_x_ref :: c_float
  x_ref :: "c_float list"
  has_end_state_ref :: bool
  weight_end_state :: array3
  end_state_ref :: array3
  has_dx_ref :: bool
  weight_dx_ref :: c_float
  dx_ref :: c_float
  penalty_dx :: "c_float list"

text \<open>The three output vectors of \<^verbatim>\<open>CalculateKernel\<close>: a compressed-column matrix.\<close>

record csc =
  P_data :: "c_float list"
  P_indices :: "c_int list"
  P_indptr :: "c_int list"

definition csc_empty :: csc where
  "csc_empty = \<lparr>P_data = [], P_indices = [], P_indptr = []\<rparr>"

type_synonym column = "(c_int \<times> c_float) list"

subsection \<open>Sequencing, loops and vector access\<close>

definition and_then :: "error + 'a \<Rightarrow> ('a \<Rightarrow> error + 'b) \<Rightarrow> error + 'b" where
  "and_then m f = (case m of Inl e \<Rightarrow> Inl e | Inr x \<Rightarrow> f x)"

text \<open>\<^verbatim>\<open>for (int i = lo; i < hi; ++i) body\<close>, stopping at the first failure.\<close>

function for_loop :: "int \<Rightarrow> int \<Rightarrow> (int \<Rightarrow> 's \<Rightarrow> error + 's) \<Rightarrow> 's \<Rightarrow> error + 's" where
  "for_loop i hi body s =
     (if i < hi then and_then (body i s) (for_loop (i + 1) hi body) else Inr s)"
  by pat_completeness auto
termination
  by (relation "measure (\<lambda>(i, hi, body, s). nat (hi - i))") auto

declare for_loop.simps [simp del]

text \<open>\<^verbatim>\<open>v[i]\<close> and \<^verbatim>\<open>v.at(i)\<close> as a read.\<close>

definition vec_at :: "'a list \<Rightarrow> int \<Rightarrow> error + 'a" where
  "vec_at v i = (if 0 \<le> i \<and> i < int (length v) then Inr (v ! nat i) else Inl OutOfRange)"

text \<open>\<^verbatim>\<open>v.resize(k, x)\<close>: keeps the first \<open>k\<close> elements, pads with \<open>x\<close>.\<close>

definition resize :: "'a list \<Rightarrow> nat \<Rightarrow> 'a \<Rightarrow> 'a list" where
  "resize v k x = take k v @ replicate (k - length v) x"

text \<open>
  \<^verbatim>\<open>v.resize(k)\<close> and \<^verbatim>\<open>v.resize(k, x)\<close> with an \<^verbatim>\<open>int\<close> argument \<open>k\<close>: a negative
  \<open>k\<close> converts to a size beyond \<^verbatim>\<open>max_size\<close>.
\<close>

definition resize_int :: "'a list \<Rightarrow> int \<Rightarrow> 'a \<Rightarrow> error + 'a list" where
  "resize_int v k x = (if k < 0 then Inl LengthError else Inr (resize v (nat k) x))"

text \<open>\<^verbatim>\<open>columns[c].emplace_back(r, v); ++value_index;\<close>\<close>

definition emplace_back ::
  "column list \<times> int \<Rightarrow> int \<Rightarrow> c_int \<times> c_float \<Rightarrow> error + column list \<times> int" where
  "emplace_back s c e =
     (case s of (columns, value_index) \<Rightarrow>
        if 0 \<le> c \<and> c < int (length columns)
        then and_then (int_result (value_index + 1)) (\<lambda>value_index.
             Inr (columns[nat c := columns ! nat c @ [e]], value_index))
        else Inl OutOfRange)"

text \<open>\<^verbatim>\<open>q->at(i) += v;\<close>\<close>

definition add_at :: "c_float list \<Rightarrow> int \<Rightarrow> c_float \<Rightarrow> error + c_float list" where
  "add_at q i v =
     (if 0 \<le> i \<and> i < int (length q) then Inr (q[nat i := q ! nat i + v]) else Inl OutOfRange)"

subsection \<open>Constructor and setters\<close>

text \<open>
  Modelled from the spec: the base-class constructor \<^verbatim>\<open>PiecewiseJerkProblem(num_of_knots,
  delta_s, x_init)\<close> and the member initialisers are declared in headers outside this
  translation unit. The spec (section 3) gives the defaults "reference flags default to absent";
  every other member is taken from the parameter \<open>base\<close>. The constructor's own body,
  \<^verbatim>\<open>penalty_dx_.resize(num_of_knots_, 0.0)\<close> on the fresh vector, is from the source.
\<close>

definition new_PiecewiseJerkSpeedProblem ::
  "PiecewiseJerkSpeedProblem \<Rightarrow> nat \<Rightarrow> c_float \<Rightarrow> PiecewiseJerkSpeedProblem" where
  "new_PiecewiseJerkSpeedProblem base n ds =
     base\<lparr>num_of_knots := n, delta_s := ds,
          has_x_ref := False, has_dx_ref := False, has_end_state_ref := False,
          penalty_dx := resize [] n 0\<rparr>"

definition set_x_ref ::
  "PiecewiseJerkSpeedProblem \<Rightarrow> c_float \<Rightarrow> c_float list \<Rightarrow> error + PiecewiseJerkSpeedProblem" where
  "set_x_ref p weight_x_ref' x_ref' =
     (if length x_ref' = num_of_knots p
      then Inr (p\<lparr>x_ref := x_ref', weight_x_ref := weight_x_ref', has_x_ref := True\<rparr>)
      else Inl CheckFailed)"

definition set_dx_ref ::
  "PiecewiseJerkSpeedProblem \<Rightarrow> c_float \<Rightarrow> c_float \<Rightarrow> PiecewiseJerkSpeedProblem" where
  "set_dx_ref p weight_dx_ref' dx_ref' =
     p\<lparr>weight_dx_ref := weight_dx_ref', dx_ref := dx_ref', has_dx_ref := True\<rparr>"

definition set_penalty_dx ::
  "PiecewiseJerkSpeedProblem \<Rightarrow> c_float list \<Rightarrow> error + PiecewiseJerkSpeedProblem" where
  "set_penalty_dx p penalty_dx' =
     (if length penalty_dx' = num_of_knots p
      then Inr (p\<lparr>penalty_dx := penalty_dx'\<rparr>)
      else Inl CheckFailed)"

definition set_end_state_ref ::
  "PiecewiseJerkSpeedProblem \<Rightarrow> array3 \<Rightarrow> array3 \<Rightarrow> PiecewiseJerkSpeedProblem" where
  "set_end_state_ref p weight_end_state' end_state_ref' =
     p\<lparr>weight_end_state := weight_end_state', end_state_ref := end_state_ref',
       has_end_state_ref := True\<rparr>"

text \<open>
  The class invariant the constructor establishes and the setters keep: the vectors
  that are indexed by knot have one element per knot.
\<close>

definition knots_ok :: "PiecewiseJerkSpeedProblem \<Rightarrow> bool" where
  "knots_ok p \<longleftrightarrow>
     length (penalty_dx p) = num_of_knots p \<and>
     (\<not> has_x_ref p \<or> length (x_ref p) = num_of_knots p)"

subsection \<open>CalculateKernel\<close>

text \<open>
  Lines 66 to 114: the three declarations, then the per-column lists of (row,
  coefficient) pairs and the running count \<open>value_index\<close>, as they stand when the count
  is checked.
\<close>

definition fill_columns :: "PiecewiseJerkSpeedProblem \<Rightarrow> error + column list \<times> int" where
  "fill_columns p =
     (let n = static_cast_int (num_of_knots p) in
      and_then (int_result (3 * n)) (\<lambda>kNumParam.
      and_then (int_result (4 * n)) (\<lambda>four_n.
      and_then (int_result (four_n - 1)) (\<lambda>kNumValue.
      and_then (resize_int [] kNumParam ([] :: column)) (\<lambda>columns.
      let value_index = 0 in
      and_then (for_loop 0 (n - 1) (\<lambda>i s. emplace_back s i (i, weight_x_ref p))
                  (columns, value_index)) (\<lambda>s.
      and_then (emplace_back s (n - 1)
                  (n - 1, weight_x_ref p + at3 (weight_end_state p) 0)) (\<lambda>s.
      and_then (for_loop 0 (n - 1) (\<lambda>i s.
                  and_then (vec_at (penalty_dx p) i) (\<lambda>penalty_dx_i.
                  emplace_back s (n + i) (n + i, weight_dx_ref p + penalty_dx_i))) s) (\<lambda>s.
      and_then (vec_at (penalty_dx p) (n - 1)) (\<lambda>penalty_dx_last.
      and_then (emplace_back s (2 * n - 1)
                  (2 * n - 1,
                   weight_dx_ref p + penalty_dx_last + at3 (weight_end_state p) 1)) (\<lambda>s.
      let delta_s_square = delta_s p * delta_s p in
      and_then (emplace_back s (2 * n)
                  (2 * n, weight_ddx p + weight_dddx p / delta_s_square)) (\<lambda>s.
      and_then (for_loop 1 (n - 1) (\<lambda>i s.
                  emplace_back s (2 * n + i)
                    (2 * n + i, weight_ddx p + 2 * weight_dddx p / delta_s_square)) s) (\<lambda>s.
      and_then (emplace_back s (3 * n - 1)
                  (3 * n - 1,
                   weight_ddx p + weight_dddx p / delta_s_square
                     + at3 (weight_end_state p) 2)) (\<lambda>s.
      for_loop 0 (n - 1) (\<lambda>i s.
        emplace_back s (2 * n + i)
          (2 * n + i + 1, - 2 * weight_dddx p / delta_s_square)) s)))))))))))))"

text \<open>
  Lines 121 to 125, the range-based loop over one column: every entry is appended, its
  value doubled, and \<open>ind_p\<close> is incremented.
\<close>

fun push_column :: "column \<Rightarrow> csc \<times> int \<Rightarrow> error + csc \<times> int" where
  "push_column [] s = Inr s"
| "push_column (row_data_pair # col) (m, ind_p) =
     and_then (int_result (ind_p + 1)) (\<lambda>ind_p.
     push_column col
       (m\<lparr>P_data := P_data m @ [snd row_data_pair * 2],
          P_indices := P_indices m @ [fst row_data_pair]\<rparr>, ind_p))"

text \<open>Lines 118 to 127.\<close>

definition emit_columns :: "column list \<Rightarrow> int \<Rightarrow> csc \<Rightarrow> error + csc" where
  "emit_columns columns kNumParam out =
     and_then (for_loop 0 kNumParam (\<lambda>i (m, ind_p).
                 and_then (vec_at columns i) (\<lambda>col.
                 push_column col (m\<lparr>P_indptr := P_indptr m @ [ind_p]\<rparr>, ind_p)))
                 (out, 0)) (\<lambda>(m, ind_p).
     Inr (m\<lparr>P_indptr := P_indptr m @ [ind_p]\<rparr>))"

text \<open>
  The whole function. The three output vectors are the caller's; the function appends
  to them. The declarations of lines 66 to 68 are written out again, so that the
  constants \<open>kNumParam\<close> and \<open>kNumValue\<close> the check and the emission use are the checked
  ones; \<open>fill_columns\<close> computes the same values from the same object.
\<close>

definition CalculateKernel :: "PiecewiseJerkSpeedProblem \<Rightarrow> csc \<Rightarrow> error + csc" where
  "CalculateKernel p out =
     (let n = static_cast_int (num_of_knots p) in
      and_then (int_result (3 * n)) (\<lambda>kNumParam.
      and_then (int_result (4 * n)) (\<lambda>four_n.
      and_then (int_result (four_n - 1)) (\<lambda>kNumValue.
      and_then (fill_columns p) (\<lambda>(columns, value_index).
      if value_index = kNumValue then emit_columns columns kNumParam out
      else Inl CheckFailed)))))"

subsection \<open>CalculateOffset\<close>

text \<open>
  The argument is the caller's vector behind the pointer \<open>q\<close> (\<open>None\<close> for a null
  pointer). \<^verbatim>\<open>resize\<close> keeps what the vector holds and value-initialises the rest.
\<close>

definition CalculateOffset ::
  "PiecewiseJerkSpeedProblem \<Rightarrow> c_float list option \<Rightarrow> error + c_float list" where
  "CalculateOffset p q_ptr =
     (case q_ptr of
        None \<Rightarrow> Inl CheckFailed
      | Some q0 \<Rightarrow>
          let n = static_cast_int (num_of_knots p) in
          and_then (int_result (3 * n)) (\<lambda>kNumParam.
          and_then (resize_int q0 kNumParam 0) (\<lambda>q.
          and_then (for_loop 0 n (\<lambda>i q.
                      and_then (if has_x_ref p
                                then and_then (vec_at (x_ref p) i) (\<lambda>x_ref_i.
                                     add_at q i (- 2 * weight_x_ref p * x_ref_i))
                                else Inr q) (\<lambda>q.
                      if has_dx_ref p
                      then add_at q (n + i) (- 2 * weight_dx_ref p * dx_ref p)
                      else Inr q)) q) (\<lambda>q.
          if has_end_state_ref p
          then
            and_then (add_at q (n - 1)
                        (- 2 * at3 (weight_end_state p) 0 * at3 (end_state_ref p) 0)) (\<lambda>q.
            and_then (add_at q (2 * n - 1)
                        (- 2 * at3 (weight_end_state p) 1 * at3 (end_state_ref p) 1)) (\<lambda>q.
            add_at q (3 * n - 1)
              (- 2 * at3 (weight_end_state p) 2 * at3 (end_state_ref p) 2)))
          else Inr q))))"

subsection \<open>Reading a compressed-column matrix\<close>

text \<open>
  The (row, value) pairs a compressed-column matrix stores for column \<open>c\<close>: the
  positions from \<open>P_indptr[c]\<close> up to \<open>P_indptr[c + 1]\<close>.
\<close>

definition csc_column :: "csc \<Rightarrow> nat \<Rightarrow> (c_int \<times> c_float) list" where
  "csc_column m c =
     map (\<lambda>k. (P_indices m ! k, P_data m ! k))
       [nat (P_indptr m ! c) ..< nat (P_indptr m ! Suc c)]"

subsection \<open>The coefficient table of the specification\<close>

text \<open>
  Section 4.1 of the specification, items 1 to 3, read as a table: the (row, coefficient)
  pairs of column \<open>c\<close> before doubling. This definition follows the specification's
  words; \<open>fill_columns\<close> above follows the source. They are compared below.
\<close>

definition kernel_column :: "PiecewiseJerkSpeedProblem \<Rightarrow> int \<Rightarrow> column" where
  "kernel_column p c =
     (let n = int (num_of_knots p); ds2 = delta_s p * delta_s p in
      if c < n - 1 then [(c, weight_x_ref p)]
      else if c = n - 1 then [(c, weight_x_ref p + at3 (weight_end_state p) 0)]
      else if c < 2 * n - 1 then [(c, weight_dx_ref p + penalty_dx p ! nat (c - n))]
      else if c = 2 * n - 1
        then [(c, weight_dx_ref p + penalty_dx p ! nat (c - n) + at3 (weight_end_state p) 1)]
      else if c = 2 * n
        then [(c, weight_ddx p + weight_dddx p / ds2), (c + 1, - 2 * weight_dddx p / ds2)]
      else if c < 3 * n - 1
        then [(c, weight_ddx p + 2 * weight_dddx p / ds2), (c + 1, - 2 * weight_dddx p / ds2)]
      else [(c, weight_ddx p + weight_dddx p / ds2 + at3 (weight_end_state p) 2)])"

definition kernel_columns :: "PiecewiseJerkSpeedProblem \<Rightarrow> column list" where
  "kernel_columns p = map (\<lambda>k. kernel_column p (int k)) [0..<3 * num_of_knots p]"

subsection \<open>Closed forms used in the proofs\<close>

text \<open>Appending \<open>f k\<close> to every column \<open>k\<close> with \<open>lo \<le> k < hi\<close>.\<close>

definition app_range :: "column list \<Rightarrow> int \<Rightarrow> int \<Rightarrow> (int \<Rightarrow> c_int \<times> c_float) \<Rightarrow> column list" where
  "app_range cols lo hi f =
     map (\<lambda>k. if lo \<le> int k \<and> int k < hi then cols ! k @ [f (int k)] else cols ! k)
       [0..<length cols]"

text \<open>The start offset of every column, and the matrix a list of columns is emitted as.\<close>

fun starts :: "int \<Rightarrow> column list \<Rightarrow> int list" where
  "starts s [] = []"
| "starts s (c # cs) = s # starts (s + int (length c)) cs"

definition csc_of_columns :: "column list \<Rightarrow> csc" where
  "csc_of_columns cols =
     \<lparr>P_data = map (\<lambda>e. snd e * 2) (concat cols),
      P_indices = map fst (concat cols),
      P_indptr = starts 0 cols @ [int (length (concat cols))]\<rparr>"

text \<open>
  The body of the loop of \<open>CalculateOffset\<close>, the vector after the iterations
  \<open>lo \<le> i < hi\<close>, and the vector after the end-state additions.
\<close>

definition offset_loop :: "PiecewiseJerkSpeedProblem \<Rightarrow> c_float list \<Rightarrow> int \<Rightarrow> int \<Rightarrow> c_float list" where
  "offset_loop p q lo hi =
     map (\<lambda>k. q ! k
              + (if has_x_ref p \<and> lo \<le> int k \<and> int k < hi
                 then - 2 * weight_x_ref p * x_ref p ! k else 0)
              + (if has_dx_ref p \<and> int (num_of_knots p) + lo \<le> int k
                    \<and> int k < int (num_of_knots p) + hi
                 then - 2 * weight_dx_ref p * dx_ref p else 0))
       [0..<length q]"

definition offset_body :: "PiecewiseJerkSpeedProblem \<Rightarrow> int \<Rightarrow> c_float list \<Rightarrow> error + c_float list" where
  "offset_body p = (\<lambda>i q.
      and_then (if has_x_ref p
                then and_then (vec_at (x_ref p) i) (\<lambda>x_ref_i.
                     add_at q i (- 2 * weight_x_ref p * x_ref_i))
                else Inr q) (\<lambda>q.
      if has_dx_ref p
      then add_at q (int (num_of_knots p) + i) (- 2 * weight_dx_ref p * dx_ref p)
      else Inr q))"

definition offset_end :: "PiecewiseJerkSpeedProblem \<Rightarrow> c_float list \<Rightarrow> c_float list" where
  "offset_end p q =
     (if has_end_state_ref p
      then
        (let n = num_of_knots p;
             q1 = q[n - 1 := q ! (n - 1)
                    + - 2 * at3 (weight_end_state p) 0 * at3 (end_state_ref p) 0];
             q2 = q1[2 * n - 1 := q1 ! (2 * n - 1)
                    + - 2 * at3 (weight_end_state p) 1 * at3 (end_state_ref p) 1]
         in q2[3 * n - 1 := q2 ! (3 * n - 1)
                 + - 2 * at3 (weight_end_state p) 2 * at3 (end_state_ref p) 2])
      else q)"

text \<open>"All weights and penalties are non-negative."\<close>

definition weights_nonneg :: "PiecewiseJerkSpeedProblem \<Rightarrow> bool" where
  "weights_nonneg p \<longleftrightarrow>
     0 \<le> weight_x_ref p \<and> 0 \<le> weight_dx_ref p \<and> 0 \<le> weight_ddx p \<and> 0 \<le> weight_dddx p \<and>
     0 \<le> at3 (weight_end_state p) 0 \<and> 0 \<le> at3 (weight_end_state p) 1 \<and>
     0 \<le> at3 (weight_end_state p) 2 \<and> (\<forall>x \<in> set (penalty_dx p). 0 \<le> x)"

subsection \<open>Concrete configurations\<close>

text \<open>
  The concrete scenario of section 8 of the specification: two knots, unit spacing, unit
  weights, position reference \<open>[1, 2]\<close> and velocity reference \<open>0.5\<close> active, no
  end-state reference. The scenario leaves the stored end-state target open; it is the
  parameter \<open>es\<close>.
\<close>

definition concrete_scenario :: "array3 \<Rightarrow> PiecewiseJerkSpeedProblem" where
  "concrete_scenario es =
     \<lparr>num_of_knots = 2, delta_s = 1, weight_ddx = 1, weight_dddx = 1,
      has_x_ref = True, weight_x_ref = 1, x_ref = [1, 2],
      has_end_state_ref = False, weight_end_state = Array3 0 0 0, end_state_ref = es,
      has_dx_ref = True, weight_dx_ref = 1, dx_ref = 1 / 2, penalty_dx = [0, 0]\<rparr>"

text \<open>
  The boundary scenario of section 8 of the specification: two knots, every weight zero,
  the default penalties, no reference active.
\<close>

definition boundary_scenario :: PiecewiseJerkSpeedProblem where
  "boundary_scenario =
     \<lparr>num_of_knots = 2, delta_s = 1, weight_ddx = 0, weight_dddx = 0,
      has_x_ref = False, weight_x_ref = 0, x_ref = [],
      has_end_state_ref = False, weight_end_state = Array3 0 0 0, end_state_ref = Array3 0 0 0,
      has_dx_ref = False, weight_dx_ref = 0, dx_ref = 0, penalty_dx = [0, 0]\<rparr>"

text \<open>
  A configuration with three knots, so that the acceleration block has an interior
  knot, with every reference active and pairwise different weights.
\<close>

definition three_knots :: PiecewiseJerkSpeedProblem where
  "three_knots =
     \<lparr>num_of_knots = 3, delta_s = 2, weight_ddx = 3, weight_dddx = 4,
      has_x_ref = True, weight_x_ref = 1, x_ref = [10, 20, 30],
      has_end_state_ref = True, weight_end_state = Array3 5 6 7,
      end_state_ref = Array3 1 2 3,
      has_dx_ref = True, weight_dx_ref = 2, dx_ref = 1 / 2, penalty_dx = [1, 2, 3]\<rparr>"


text \<open>
  The three-knot configuration with \<open>k\<close> knots instead, and one zero reference and
  penalty per knot.
\<close>

definition many_knots :: "nat \<Rightarrow> PiecewiseJerkSpeedProblem" where
  "many_knots k =
     three_knots\<lparr>num_of_knots := k, x_ref := replicate k 0, penalty_dx := replicate k 0\<rparr>"

section \<open>Properties\<close>

subsection \<open>Sequencing and loops\<close>

lemma and_then_Inr [simp]: "and_then (Inr x) f = f x"
  by (simp add: and_then_def)

lemma and_then_Inl [simp]: "and_then (Inl e) f = Inl e"
  by (simp add: and_then_def)

lemma static_cast_int_id: "int k \<le> INT_MAX \<Longrightarrow> static_cast_int k = int k"
  by (simp add: static_cast_int_def INT_MAX_def)

lemma int_result_Inr: "INT_MIN \<le> x \<Longrightarrow> x \<le> INT_MAX \<Longrightarrow> int_result x = Inr x"
  by (simp add: int_result_def)

lemma resize_int_Inr: "0 \<le> k \<Longrightarrow> resize_int v k x = Inr (resize v (nat k) x)"
  by (simp add: resize_int_def)

text \<open>
  The index expressions and the loop counters of both functions, once \<open>3 * n\<close> has been
  computed and a vector has been resized to it.
\<close>

lemma index_expressions_in_range:
  assumes "int_result (3 * n) = Inr k" and "resize_int v k x = Inr v'"
    and "0 \<le> i" and "i < n"
  shows "INT_MIN \<le> n - 1 \<and> n - 1 \<le> INT_MAX"
    and "INT_MIN \<le> i + 1 \<and> i + 1 \<le> INT_MAX"
    and "INT_MIN \<le> n + i \<and> n + i \<le> INT_MAX"
    and "INT_MIN \<le> 2 * n - 1 \<and> 2 * n - 1 \<le> INT_MAX"
    and "INT_MIN \<le> 2 * n + i \<and> 2 * n + i \<le> INT_MAX"
    and "INT_MIN \<le> 2 * n + i + 1 \<and> 2 * n + i + 1 \<le> INT_MAX"
    and "INT_MIN \<le> 3 * n - 1 \<and> 3 * n - 1 \<le> INT_MAX"
proof -
  have k: "k = 3 * n" "3 * n \<le> INT_MAX"
    using assms(1) by (auto simp: int_result_def split: if_splits)
  have "0 \<le> k" using assms(2) by (auto simp: resize_int_def split: if_splits)
  then have n: "0 \<le> n" using k by simp
  show "INT_MIN \<le> n - 1 \<and> n - 1 \<le> INT_MAX"
    and "INT_MIN \<le> i + 1 \<and> i + 1 \<le> INT_MAX"
    and "INT_MIN \<le> n + i \<and> n + i \<le> INT_MAX"
    and "INT_MIN \<le> 2 * n - 1 \<and> 2 * n - 1 \<le> INT_MAX"
    and "INT_MIN \<le> 2 * n + i \<and> 2 * n + i \<le> INT_MAX"
    and "INT_MIN \<le> 2 * n + i + 1 \<and> 2 * n + i + 1 \<le> INT_MAX"
    and "INT_MIN \<le> 3 * n - 1 \<and> 3 * n - 1 \<le> INT_MAX"
    using k n assms(3,4) by (simp_all add: INT_MIN_def)
qed

lemma for_loop_step: "i < hi \<Longrightarrow> for_loop i hi body s = and_then (body i s) (for_loop (i + 1) hi body)"
  by (simp add: for_loop.simps)

lemma for_loop_done: "\<not> i < hi \<Longrightarrow> for_loop i hi body s = Inr s"
  by (simp add: for_loop.simps)

lemma for_loop_cong_range:
  "(\<And>j t. i \<le> j \<Longrightarrow> j < hi \<Longrightarrow> body j t = body' j t) \<Longrightarrow>
   for_loop i hi body s = for_loop i hi body' s"
proof (induction "nat (hi - i)" arbitrary: i s)
  case 0
  then show ?case by (simp add: for_loop_done)
next
  case (Suc k)
  then have lt: "i < hi" by linarith
  have step: "\<And>t. for_loop (i + 1) hi body t = for_loop (i + 1) hi body' t"
    using Suc.hyps(2) Suc.prems by (intro Suc.hyps(1)) auto
  have "body i s = body' i s" using Suc.prems lt by simp
  then show ?case
    using lt step by (simp add: for_loop_step and_then_def split: sum.splits)
qed

lemma length_app_range [simp]: "length (app_range cols lo hi f) = length cols"
  by (simp add: app_range_def)

lemma nth_app_range:
  "k < length cols \<Longrightarrow>
   app_range cols lo hi f ! k =
     (if lo \<le> int k \<and> int k < hi then cols ! k @ [f (int k)] else cols ! k)"
  by (simp add: app_range_def)

lemma emplace_back_app_range:
  assumes c: "0 \<le> c" "c < int (length cols)" and vi: "0 \<le> vi" "vi < INT_MAX"
  shows "emplace_back (cols, vi) c e = Inr (app_range cols c (c + 1) (\<lambda>_. e), vi + 1)"
proof -
  have "cols[nat c := cols ! nat c @ [e]] = app_range cols c (c + 1) (\<lambda>_. e)"
  proof (rule nth_equalityI)
    fix k assume "k < length (cols[nat c := cols ! nat c @ [e]])"
    then have k: "k < length cols" by simp
    show "cols[nat c := cols ! nat c @ [e]] ! k = app_range cols c (c + 1) (\<lambda>_. e) ! k"
    proof (cases "k = nat c")
      case True
      then show ?thesis using k c by (simp add: nth_app_range)
    next
      case False
      then have "\<not> (c \<le> int k \<and> int k < c + 1)" using c by linarith
      then show ?thesis using k False by (simp add: nth_app_range)
    qed
  qed simp
  moreover have "int_result (vi + 1) = Inr (vi + 1)"
    using vi by (simp add: int_result_def INT_MIN_def)
  ultimately show ?thesis using c by (simp add: emplace_back_def)
qed

lemma for_loop_emplace:
  "0 \<le> b + lo \<Longrightarrow> b + hi \<le> int (length cols) \<Longrightarrow> lo \<le> hi \<Longrightarrow>
   0 \<le> vi \<Longrightarrow> vi + (hi - lo) \<le> INT_MAX \<Longrightarrow>
   for_loop lo hi (\<lambda>i s. emplace_back s (b + i) (g i)) (cols, vi) =
     Inr (app_range cols (b + lo) (b + hi) (\<lambda>k. g (k - b)), vi + (hi - lo))"
proof (induction "nat (hi - lo)" arbitrary: lo cols vi)
  case 0
  then have "lo = hi" by simp
  then show ?case
  proof -
    have "app_range cols (b + lo) (b + hi) (\<lambda>k. g (k - b)) = cols"
      using \<open>lo = hi\<close> by (rule_tac nth_equalityI) (simp_all add: nth_app_range)
    then show ?thesis using \<open>lo = hi\<close> by (simp add: for_loop_done)
  qed
next
  case (Suc k)
  then have lt: "lo < hi" by linarith
  let ?cols1 = "app_range cols (b + lo) (b + lo + 1) (\<lambda>_. g lo)"
  have one: "emplace_back (cols, vi) (b + lo) (g lo) = Inr (?cols1, vi + 1)"
    using Suc.prems lt by (intro emplace_back_app_range) linarith+
  have rest: "for_loop (lo + 1) hi (\<lambda>i s. emplace_back s (b + i) (g i)) (?cols1, vi + 1) =
     Inr (app_range ?cols1 (b + (lo + 1)) (b + hi) (\<lambda>k. g (k - b)), vi + 1 + (hi - (lo + 1)))"
    using Suc.hyps(2) Suc.prems lt by (intro Suc.hyps(1)) auto
  have eq: "app_range ?cols1 (b + (lo + 1)) (b + hi) (\<lambda>k. g (k - b)) =
            app_range cols (b + lo) (b + hi) (\<lambda>k. g (k - b))"
  proof (rule nth_equalityI)
    fix k assume "k < length (app_range ?cols1 (b + (lo + 1)) (b + hi) (\<lambda>k. g (k - b)))"
    then have k: "k < length cols" by simp
    show "app_range ?cols1 (b + (lo + 1)) (b + hi) (\<lambda>k. g (k - b)) ! k =
          app_range cols (b + lo) (b + hi) (\<lambda>k. g (k - b)) ! k"
    proof (cases "int k = b + lo")
      case True
      then have "int k - b = lo" by simp
      then show ?thesis using k lt True by (simp add: nth_app_range)
    next
      case False
      then show ?thesis using k lt by (auto simp: nth_app_range)
    qed
  qed simp
  show ?case
    using lt one rest eq by (simp add: for_loop_step)
qed

subsection \<open>The columns built by CalculateKernel\<close>

lemma fill_columns_closed:
  assumes n2: "2 \<le> num_of_knots p" and len: "length (penalty_dx p) = num_of_knots p"
    and fits: "4 * int (num_of_knots p) \<le> INT_MAX"
  shows "fill_columns p = Inr (kernel_columns p, 4 * int (num_of_knots p) - 1)"
proof -
  define n where "n = int (num_of_knots p)"
  define ds2 where "ds2 = delta_s p * delta_s p"
  define c0 where "c0 = replicate (nat (3 * n)) ([] :: column)"
  define c1 where "c1 = app_range c0 0 (n - 1) (\<lambda>k. (k, weight_x_ref p))"
  define c2 where "c2 = app_range c1 (n - 1) n
                      (\<lambda>_. (n - 1, weight_x_ref p + at3 (weight_end_state p) 0))"
  define c3 where "c3 = app_range c2 n (2 * n - 1)
                      (\<lambda>k. (k, weight_dx_ref p + penalty_dx p ! nat (k - n)))"
  define c4 where "c4 = app_range c3 (2 * n - 1) (2 * n)
                      (\<lambda>_. (2 * n - 1, weight_dx_ref p + penalty_dx p ! nat (n - 1)
                                          + at3 (weight_end_state p) 1))"
  define c5 where "c5 = app_range c4 (2 * n) (2 * n + 1)
                      (\<lambda>_. (2 * n, weight_ddx p + weight_dddx p / ds2))"
  define c6 where "c6 = app_range c5 (2 * n + 1) (3 * n - 1)
                      (\<lambda>k. (k, weight_ddx p + 2 * weight_dddx p / ds2))"
  define c7 where "c7 = app_range c6 (3 * n - 1) (3 * n)
                      (\<lambda>_. (3 * n - 1, weight_ddx p + weight_dddx p / ds2
                                          + at3 (weight_end_state p) 2))"
  define c8 where "c8 = app_range c7 (2 * n) (3 * n - 1)
                      (\<lambda>k. (k + 1, - 2 * weight_dddx p / ds2))"
  have n: "2 \<le> n" using n2 by (simp add: n_def)
  have m: "4 * n \<le> INT_MAX" using fits by (simp add: n_def)
  have sc: "static_cast_int (num_of_knots p) = n"
    using m n by (simp add: n_def static_cast_int_id)
  have i3: "int_result (3 * n) = Inr (3 * n)"
    using m n by (intro int_result_Inr) (simp_all add: INT_MIN_def)
  have i4: "int_result (4 * n) = Inr (4 * n)"
    using m n by (intro int_result_Inr) (simp_all add: INT_MIN_def)
  have i41: "int_result (4 * n - 1) = Inr (4 * n - 1)"
    using m n by (intro int_result_Inr) (simp_all add: INT_MIN_def)
  have rz: "resize_int [] (3 * n) ([] :: column) = Inr c0"
    using n by (simp add: resize_int_def resize_def c0_def)
  have l0: "int (length c0) = 3 * n" using n by (simp add: c0_def)
  have l1: "int (length c1) = 3 * n" by (simp add: c1_def l0)
  have l2: "int (length c2) = 3 * n" by (simp add: c2_def l1)
  have l3: "int (length c3) = 3 * n" by (simp add: c3_def l2)
  have l4: "int (length c4) = 3 * n" by (simp add: c4_def l3)
  have l5: "int (length c5) = 3 * n" by (simp add: c5_def l4)
  have l6: "int (length c6) = 3 * n" by (simp add: c6_def l5)
  have l7: "int (length c7) = 3 * n" by (simp add: c7_def l6)
  have s1: "for_loop 0 (n - 1) (\<lambda>i s. emplace_back s i (i, weight_x_ref p)) (c0, 0)
            = Inr (c1, n - 1)"
    using for_loop_emplace [where b = 0 and lo = 0 and hi = "n - 1" and cols = c0
            and g = "\<lambda>i. (i, weight_x_ref p)" and vi = 0] n m l0
    by (simp add: c1_def)
  have s2: "emplace_back (c1, n - 1) (n - 1) (n - 1, weight_x_ref p + at3 (weight_end_state p) 0)
            = Inr (c2, n)"
    using emplace_back_app_range [of "n - 1" c1] n m l1 by (simp add: c2_def)
  have body3: "for_loop 0 (n - 1) (\<lambda>i s.
                  and_then (vec_at (penalty_dx p) i) (\<lambda>penalty_dx_i.
                  emplace_back s (n + i) (n + i, weight_dx_ref p + penalty_dx_i))) (c2, n)
             = for_loop 0 (n - 1) (\<lambda>i s.
                  emplace_back s (n + i) (n + i, weight_dx_ref p + penalty_dx p ! nat i)) (c2, n)"
    by (rule for_loop_cong_range) (simp add: vec_at_def len n_def)
  have s3: "for_loop 0 (n - 1) (\<lambda>i s.
                  and_then (vec_at (penalty_dx p) i) (\<lambda>penalty_dx_i.
                  emplace_back s (n + i) (n + i, weight_dx_ref p + penalty_dx_i))) (c2, n)
            = Inr (c3, 2 * n - 1)"
    unfolding body3
    using for_loop_emplace [where b = n and lo = 0 and hi = "n - 1" and cols = c2
            and g = "\<lambda>i. (n + i, weight_dx_ref p + penalty_dx p ! nat i)" and vi = n] n m l2
    by (simp add: c3_def)
  have v4: "vec_at (penalty_dx p) (n - 1) = Inr (penalty_dx p ! nat (n - 1))"
    using n by (simp add: vec_at_def len n_def)
  have s4: "emplace_back (c3, 2 * n - 1) (2 * n - 1)
              (2 * n - 1, weight_dx_ref p + penalty_dx p ! nat (n - 1) + at3 (weight_end_state p) 1)
            = Inr (c4, 2 * n)"
    using emplace_back_app_range [of "2 * n - 1" c3] n m l3 by (simp add: c4_def)
  have s5: "emplace_back (c4, 2 * n) (2 * n) (2 * n, weight_ddx p + weight_dddx p / ds2)
            = Inr (c5, 2 * n + 1)"
    using emplace_back_app_range [of "2 * n" c4] n m l4 by (simp add: c5_def)
  have s6: "for_loop 1 (n - 1) (\<lambda>i s.
                  emplace_back s (2 * n + i)
                    (2 * n + i, weight_ddx p + 2 * weight_dddx p / ds2)) (c5, 2 * n + 1)
            = Inr (c6, 3 * n - 1)"
    using for_loop_emplace [where b = "2 * n" and lo = 1 and hi = "n - 1" and cols = c5
            and g = "\<lambda>i. (2 * n + i, weight_ddx p + 2 * weight_dddx p / ds2)" and vi = "2 * n + 1"] n m l5
    by (simp add: c6_def)
  have s7: "emplace_back (c6, 3 * n - 1) (3 * n - 1)
              (3 * n - 1, weight_ddx p + weight_dddx p / ds2 + at3 (weight_end_state p) 2)
            = Inr (c7, 3 * n)"
    using emplace_back_app_range [of "3 * n - 1" c6] n m l6 by (simp add: c7_def)
  have s8: "for_loop 0 (n - 1) (\<lambda>i s.
                  emplace_back s (2 * n + i)
                    (2 * n + i + 1, - 2 * weight_dddx p / ds2)) (c7, 3 * n)
            = Inr (c8, 4 * n - 1)"
    using for_loop_emplace [where b = "2 * n" and lo = 0 and hi = "n - 1" and cols = c7
            and g = "\<lambda>i. (2 * n + i + 1, - 2 * weight_dddx p / ds2)" and vi = "3 * n"] n m l7
    by (simp add: c8_def)
  have run: "fill_columns p = Inr (c8, 4 * n - 1)"
    unfolding fill_columns_def Let_def
    by (simp only: sc i3 i4 i41 rz ds2_def [symmetric]
          s1 s2 s3 v4 s4 s5 s6 s7 s8 and_then_Inr)
  have "c8 = kernel_columns p"
  proof (rule nth_equalityI)
    show "length c8 = length (kernel_columns p)"
      using l7 by (simp add: c8_def kernel_columns_def n_def)
  next
    fix k assume "k < length c8"
    then have k: "int k < 3 * n" using l7 by (simp add: c8_def)
    have k': "k < 3 * num_of_knots p" using k by (simp add: n_def)
    have ks: "k < length c0" "k < length c1" "k < length c2" "k < length c3"
      "k < length c4" "k < length c5" "k < length c6" "k < length c7"
      using k l0 l1 l2 l3 l4 l5 l6 l7 by linarith+
    have c0k: "c0 ! k = []" using ks(1) by (simp add: c0_def)
    have e1: "c1 ! k = (if int k < n - 1 then [(int k, weight_x_ref p)] else [])"
      using ks(1) c0k by (simp add: c1_def nth_app_range)
    have e2: "c2 ! k = (if n - 1 \<le> int k \<and> int k < n
        then c1 ! k @ [(n - 1, weight_x_ref p + at3 (weight_end_state p) 0)] else c1 ! k)"
      using ks(2) by (simp add: c2_def nth_app_range)
    have e3: "c3 ! k = (if n \<le> int k \<and> int k < 2 * n - 1
        then c2 ! k @ [(int k, weight_dx_ref p + penalty_dx p ! nat (int k - n))] else c2 ! k)"
      using ks(3) by (simp add: c3_def nth_app_range)
    have e4: "c4 ! k = (if 2 * n - 1 \<le> int k \<and> int k < 2 * n
        then c3 ! k @ [(2 * n - 1, weight_dx_ref p + penalty_dx p ! nat (n - 1)
                                          + at3 (weight_end_state p) 1)] else c3 ! k)"
      using ks(4) by (simp add: c4_def nth_app_range)
    have e5: "c5 ! k = (if 2 * n \<le> int k \<and> int k < 2 * n + 1
        then c4 ! k @ [(2 * n, weight_ddx p + weight_dddx p / ds2)] else c4 ! k)"
      using ks(5) by (simp add: c5_def nth_app_range)
    have e6: "c6 ! k = (if 2 * n + 1 \<le> int k \<and> int k < 3 * n - 1
        then c5 ! k @ [(int k, weight_ddx p + 2 * weight_dddx p / ds2)] else c5 ! k)"
      using ks(6) by (simp add: c6_def nth_app_range)
    have e7: "c7 ! k = (if 3 * n - 1 \<le> int k \<and> int k < 3 * n
        then c6 ! k @ [(3 * n - 1, weight_ddx p + weight_dddx p / ds2
                                          + at3 (weight_end_state p) 2)] else c6 ! k)"
      using ks(7) by (simp add: c7_def nth_app_range)
    have e8: "c8 ! k = (if 2 * n \<le> int k \<and> int k < 3 * n - 1
        then c7 ! k @ [(int k + 1, - 2 * weight_dddx p / ds2)] else c7 ! k)"
      using ks(8) by (simp add: c8_def nth_app_range)
    consider (a) "int k < n - 1" | (b) "int k = n - 1" | (c) "n \<le> int k" "int k < 2 * n - 1"
      | (d) "int k = 2 * n - 1" | (e) "int k = 2 * n" | (f) "2 * n < int k" "int k < 3 * n - 1"
      | (g) "int k = 3 * n - 1"
      using k by linarith
    then have "c8 ! k = kernel_column p (int k)"
    proof cases
      case a
      then show ?thesis using n
        by (simp add: e1 e2 e3 e4 e5 e6 e7 e8 kernel_column_def n_def [symmetric])
    next
      case b
      then show ?thesis using n
        by (simp add: e1 e2 e3 e4 e5 e6 e7 e8 kernel_column_def n_def [symmetric])
    next
      case c
      then show ?thesis using n
        by (simp add: e1 e2 e3 e4 e5 e6 e7 e8 kernel_column_def n_def [symmetric])
    next
      case d
      then have "nat (int k - n) = nat (n - 1)" by simp
      then show ?thesis using n d
        by (simp add: e1 e2 e3 e4 e5 e6 e7 e8 kernel_column_def n_def [symmetric])
    next
      case e
      then show ?thesis using n
        by (simp add: e1 e2 e3 e4 e5 e6 e7 e8 kernel_column_def n_def [symmetric]
              ds2_def [symmetric])
    next
      case f
      then show ?thesis using n
        by (simp add: e1 e2 e3 e4 e5 e6 e7 e8 kernel_column_def n_def [symmetric]
              ds2_def [symmetric])
    next
      case g
      then show ?thesis using n
        by (simp add: e1 e2 e3 e4 e5 e6 e7 e8 kernel_column_def n_def [symmetric]
              ds2_def [symmetric])
    qed
    then show "c8 ! k = kernel_columns p ! k"
      using k' by (simp add: kernel_columns_def)
  qed
  then show ?thesis using run by (simp add: n_def)
qed

subsection \<open>The emitted matrix\<close>

lemma push_column_closed:
  "0 \<le> ind_p \<Longrightarrow> ind_p + int (length col) \<le> INT_MAX \<Longrightarrow>
   push_column col (m, ind_p) =
     Inr (m\<lparr>P_data := P_data m @ map (\<lambda>e. snd e * 2) col,
            P_indices := P_indices m @ map fst col\<rparr>, ind_p + int (length col))"
proof (induction col arbitrary: m ind_p)
  case Nil
  then show ?case by simp
next
  case (Cons e col)
  let ?m1 = "m\<lparr>P_data := P_data m @ [snd e * 2], P_indices := P_indices m @ [fst e]\<rparr>"
  have i: "int_result (ind_p + 1) = Inr (ind_p + 1)"
    using Cons.prems by (intro int_result_Inr) (simp_all add: INT_MIN_def)
  have "push_column (e # col) (m, ind_p) = push_column col (?m1, ind_p + 1)"
    by (simp add: i)
  also have "\<dots> = Inr (?m1\<lparr>P_data := P_data ?m1 @ map (\<lambda>e. snd e * 2) col,
                        P_indices := P_indices ?m1 @ map fst col\<rparr>,
                     ind_p + 1 + int (length col))"
    using Cons.prems by (intro Cons.IH) simp_all
  finally show ?case by (simp add: add.assoc)
qed

lemma emit_loop_closed:
  "lo \<le> length cols \<Longrightarrow> 0 \<le> ind_p \<Longrightarrow>
   ind_p + int (length (concat (drop lo cols))) \<le> INT_MAX \<Longrightarrow>
   for_loop (int lo) (int (length cols)) (\<lambda>i (m, ind_p).
       and_then (vec_at cols i) (\<lambda>col.
       push_column col (m\<lparr>P_indptr := P_indptr m @ [ind_p]\<rparr>, ind_p))) (m, ind_p) =
     Inr (m\<lparr>P_data := P_data m @ map (\<lambda>e. snd e * 2) (concat (drop lo cols)),
            P_indices := P_indices m @ map fst (concat (drop lo cols)),
            P_indptr := P_indptr m @ starts ind_p (drop lo cols)\<rparr>,
          ind_p + int (length (concat (drop lo cols))))"
proof (induction "length cols - lo" arbitrary: lo m ind_p)
  case 0
  then show ?case by (simp add: for_loop_done)
next
  case (Suc k)
  then have lt: "lo < length cols" by linarith
  have d: "drop lo cols = cols ! lo # drop (Suc lo) cols"
    using lt by (simp add: Cons_nth_drop_Suc)
  have v: "vec_at cols (int lo) = Inr (cols ! lo)"
    using lt by (simp add: vec_at_def)
  have k: "k = length cols - Suc lo" using Suc.hyps(2) by linarith
  have b0: "0 \<le> ind_p" by (rule Suc.prems(2))
  have b1: "ind_p + int (length (cols ! lo)) + int (length (concat (drop (Suc lo) cols)))
            \<le> INT_MAX"
    using Suc.prems(3) by (simp add: d)
  have b2: "ind_p + int (length (cols ! lo)) \<le> INT_MAX" using b1 by linarith
  have b3: "0 \<le> ind_p + int (length (cols ! lo))" using b0 by linarith
  let ?m1 = "m\<lparr>P_indptr := P_indptr m @ [ind_p]\<rparr>"
  let ?m2 = "?m1\<lparr>P_data := P_data ?m1 @ map (\<lambda>e. snd e * 2) (cols ! lo),
                    P_indices := P_indices ?m1 @ map fst (cols ! lo)\<rparr>"
  let ?body = "\<lambda>i (m, ind_p).
       and_then (vec_at cols i) (\<lambda>col.
       push_column col (m\<lparr>P_indptr := P_indptr m @ [ind_p]\<rparr>, ind_p))"
  have first: "?body (int lo) (m, ind_p) = Inr (?m2, ind_p + int (length (cols ! lo)))"
    by (simp add: v push_column_closed [OF b0 b2])
  have sl: "Suc lo \<le> length cols" using lt by simp
  have rest: "for_loop (int (Suc lo)) (int (length cols)) ?body
                (?m2, ind_p + int (length (cols ! lo))) =
     Inr (?m2\<lparr>P_data := P_data ?m2 @ map (\<lambda>e. snd e * 2) (concat (drop (Suc lo) cols)),
            P_indices := P_indices ?m2 @ map fst (concat (drop (Suc lo) cols)),
            P_indptr := P_indptr ?m2 @ starts (ind_p + int (length (cols ! lo))) (drop (Suc lo) cols)\<rparr>,
          ind_p + int (length (cols ! lo)) + int (length (concat (drop (Suc lo) cols))))"
    by (rule Suc.hyps(1) [OF k sl b3 b1])
  have "for_loop (int lo) (int (length cols)) ?body (m, ind_p) =
        for_loop (int lo + 1) (int (length cols)) ?body (?m2, ind_p + int (length (cols ! lo)))"
    using lt first by (simp only: for_loop_step [of "int lo" "int (length cols)" ?body "(m, ind_p)"] of_nat_less_iff and_then_Inr)
  also have "int lo + 1 = int (Suc lo)" by simp
  finally show ?case
    unfolding rest d by simp
qed

lemma emit_columns_closed:
  "int (length (concat cols)) \<le> INT_MAX \<Longrightarrow>
   emit_columns cols (int (length cols)) csc_empty = Inr (csc_of_columns cols)"
  using emit_loop_closed [of 0 cols 0 csc_empty]
  by (simp add: emit_columns_def csc_of_columns_def csc_empty_def)

lemma length_starts [simp]: "length (starts s cols) = length cols"
  by (induction cols arbitrary: s) simp_all

lemma nth_starts:
  "c \<le> length cols \<Longrightarrow>
   (starts s cols @ [s + int (length (concat cols))]) ! c = s + int (length (concat (take c cols)))"
proof (induction cols arbitrary: s c)
  case Nil
  then show ?case by simp
next
  case (Cons a cols)
  show ?case
  proof (cases c)
    case 0
    then show ?thesis by simp
  next
    case (Suc c')
    then have "c' \<le> length cols" using Cons.prems by simp
    from Cons.IH [OF this, of "s + int (length a)"] show ?thesis
      by (simp add: Suc add.assoc)
  qed
qed

lemma csc_column_of_columns:
  assumes c: "c < length cols"
  shows "csc_column (csc_of_columns cols) c = map (\<lambda>e. (fst e, snd e * 2)) (cols ! c)"
proof -
  let ?a = "length (concat (take c cols))"
  let ?l = "length (cols ! c)"
  have lo: "P_indptr (csc_of_columns cols) ! c = int ?a"
    using nth_starts [of c cols 0] c by (simp add: csc_of_columns_def)
  have tk: "take (Suc c) cols = take c cols @ [cols ! c]"
    using c by (simp add: take_Suc_conv_app_nth)
  have hi: "P_indptr (csc_of_columns cols) ! Suc c = int (?a + ?l)"
    using nth_starts [of "Suc c" cols 0] c by (simp add: csc_of_columns_def tk)
  have split: "concat cols = concat (take c cols) @ cols ! c @ concat (drop (Suc c) cols)"
    using c by (metis concat.simps(2) concat_append id_take_nth_drop)
  have nth: "\<And>j. j < ?l \<Longrightarrow> concat cols ! (?a + j) = cols ! c ! j"
    by (subst split) (simp add: nth_append)
  have len: "\<And>j. j < ?l \<Longrightarrow> ?a + j < length (concat cols)"
    by (subst split) simp
  show ?thesis
  proof (rule nth_equalityI)
    show "length (csc_column (csc_of_columns cols) c) = length (map (\<lambda>e. (fst e, snd e * 2)) (cols ! c))"
      by (simp add: csc_column_def lo hi)
  next
    fix j assume "j < length (csc_column (csc_of_columns cols) c)"
    then have j: "j < ?l" by (simp add: csc_column_def lo hi)
    then show "csc_column (csc_of_columns cols) c ! j = map (\<lambda>e. (fst e, snd e * 2)) (cols ! c) ! j"
      using nth [OF j] len [OF j]
      by (simp add: csc_column_def lo hi) (simp add: csc_of_columns_def)
  qed
qed

subsection \<open>The table, column by column\<close>

lemma kernel_csc_column:
  "c < 3 * num_of_knots p \<Longrightarrow>
   csc_column (csc_of_columns (kernel_columns p)) c =
     map (\<lambda>e. (fst e, snd e * 2)) (kernel_column p (int c))"
  using csc_column_of_columns [of c "kernel_columns p"]
  by (simp add: kernel_columns_def)

lemma kernel_column_position:
  "k < int (num_of_knots p) - 1 \<Longrightarrow> kernel_column p k = [(k, weight_x_ref p)]"
  by (simp add: kernel_column_def Let_def)

lemma kernel_column_position_last:
  "k = int (num_of_knots p) - 1 \<Longrightarrow>
   kernel_column p k = [(k, weight_x_ref p + at3 (weight_end_state p) 0)]"
  by (simp add: kernel_column_def Let_def)

lemma kernel_column_velocity:
  "int (num_of_knots p) \<le> k \<Longrightarrow> k < 2 * int (num_of_knots p) - 1 \<Longrightarrow>
   kernel_column p k =
     [(k, weight_dx_ref p + penalty_dx p ! nat (k - int (num_of_knots p)))]"
  by (simp add: kernel_column_def Let_def)

lemma kernel_column_velocity_last:
  "k = 2 * int (num_of_knots p) - 1 \<Longrightarrow> 1 \<le> num_of_knots p \<Longrightarrow>
   kernel_column p k =
     [(k, weight_dx_ref p + penalty_dx p ! (num_of_knots p - 1)
               + at3 (weight_end_state p) 1)]"
proof -
  assume c: "k = 2 * int (num_of_knots p) - 1" and n: "1 \<le> num_of_knots p"
  have "nat (k - int (num_of_knots p)) = num_of_knots p - 1" using c n by linarith
  then show ?thesis using c n by (simp add: kernel_column_def Let_def)
qed

lemma kernel_column_acceleration_first:
  "k = 2 * int (num_of_knots p) \<Longrightarrow> 2 \<le> num_of_knots p \<Longrightarrow>
   kernel_column p k =
     [(k, weight_ddx p + weight_dddx p / (delta_s p * delta_s p)),
      (k + 1, - 2 * weight_dddx p / (delta_s p * delta_s p))]"
  by (simp add: kernel_column_def Let_def)

lemma kernel_column_acceleration_interior:
  "2 * int (num_of_knots p) < k \<Longrightarrow> k < 3 * int (num_of_knots p) - 1 \<Longrightarrow>
   kernel_column p k =
     [(k, weight_ddx p + 2 * weight_dddx p / (delta_s p * delta_s p)),
      (k + 1, - 2 * weight_dddx p / (delta_s p * delta_s p))]"
  by (simp add: kernel_column_def Let_def)

lemma kernel_column_acceleration_last:
  "k = 3 * int (num_of_knots p) - 1 \<Longrightarrow> 2 \<le> num_of_knots p \<Longrightarrow>
   kernel_column p k =
     [(k, weight_ddx p + weight_dddx p / (delta_s p * delta_s p)
               + at3 (weight_end_state p) 2)]"
  by (simp add: kernel_column_def Let_def)

lemma nth_kernel_columns:
  "c < 3 * num_of_knots p \<Longrightarrow> kernel_columns p ! c = kernel_column p (int c)"
  by (simp add: kernel_columns_def)

lemma length_kernel_columns [simp]: "length (kernel_columns p) = 3 * num_of_knots p"
  by (simp add: kernel_columns_def)

subsection \<open>Counts, offsets and signs\<close>

lemma rows_kernel_column:
  "2 \<le> num_of_knots p \<Longrightarrow>
   map fst (kernel_column p k) =
     (if 2 * int (num_of_knots p) \<le> k \<and> k < 3 * int (num_of_knots p) - 1
      then [k, k + 1] else [k])"
  by (simp add: kernel_column_def Let_def)

lemma length_kernel_column:
  "2 \<le> num_of_knots p \<Longrightarrow>
   length (kernel_column p k) =
     (if 2 * int (num_of_knots p) \<le> k \<and> k < 3 * int (num_of_knots p) - 1 then 2 else 1)"
  using arg_cong [OF rows_kernel_column, of p length k] by (simp split: if_splits)

lemma sum_list_bump:
  assumes "a \<le> b" "b \<le> m"
  shows "sum_list (map (\<lambda>k. if a \<le> k \<and> k < b then 2 else (1::nat)) [0..<m]) = m + (b - a)"
proof -
  let ?f = "\<lambda>k. if a \<le> k \<and> k < b then 2 else (1::nat)"
  have split: "[0..<m] = [0..<a] @ [a..<b] @ [b..<m]"
    using upt_add_eq_append [of 0 a "m - a"] upt_add_eq_append [of a b "m - b"] assms
    by simp
  have 1: "map ?f [0..<a] = map (\<lambda>_. 1) [0..<a]" by (rule map_cong) simp_all
  have 2: "map ?f [a..<b] = map (\<lambda>_. 2) [a..<b]" by (rule map_cong) simp_all
  have 3: "map ?f [b..<m] = map (\<lambda>_. 1) [b..<m]" by (rule map_cong) simp_all
  show ?thesis
    using assms by (simp add: split 1 2 3 sum_list_triv)
qed

lemma length_concat_kernel_columns:
  assumes n2: "2 \<le> num_of_knots p"
  shows "length (concat (kernel_columns p)) = 4 * num_of_knots p - 1"
proof -
  let ?n = "num_of_knots p"
  have "map length (kernel_columns p) =
        map (\<lambda>k. if 2 * ?n \<le> k \<and> k < 3 * ?n - 1 then 2 else (1::nat)) [0..<3 * ?n]"
    unfolding kernel_columns_def map_map
  proof (rule map_cong [OF refl])
    fix k assume "k \<in> set [0..<3 * ?n]"
    have "(2 * int ?n \<le> int k \<and> int k < 3 * int ?n - 1) = (2 * ?n \<le> k \<and> k < 3 * ?n - 1)"
      using n2 by linarith
    then show "(length \<circ> (\<lambda>k. kernel_column p (int k))) k =
          (if 2 * ?n \<le> k \<and> k < 3 * ?n - 1 then 2 else 1)"
      using length_kernel_column [OF n2, of "int k"] by simp
  qed
  then have "length (concat (kernel_columns p)) = 3 * ?n + (3 * ?n - 1 - 2 * ?n)"
    using sum_list_bump [of "2 * ?n" "3 * ?n - 1" "3 * ?n"] n2
    by (simp add: length_concat)
  then show ?thesis using n2 by linarith
qed

lemma CalculateKernel_closed:
  assumes n2: "2 \<le> num_of_knots p" and len: "length (penalty_dx p) = num_of_knots p"
    and fits: "4 * int (num_of_knots p) \<le> INT_MAX"
  shows "CalculateKernel p csc_empty = Inr (csc_of_columns (kernel_columns p))"
proof -
  have l: "int (length (kernel_columns p)) = 3 * int (num_of_knots p)"
    by (simp add: kernel_columns_def)
  have sc: "static_cast_int (num_of_knots p) = int (num_of_knots p)"
    using fits by (intro static_cast_int_id) simp
  have "int (length (concat (kernel_columns p))) = 4 * int (num_of_knots p) - 1"
    using length_concat_kernel_columns [OF n2] n2 by simp
  then have "int (length (concat (kernel_columns p))) \<le> INT_MAX"
    using fits by simp
  moreover have "int_result (3 * int (num_of_knots p)) = Inr (3 * int (num_of_knots p))"
    "int_result (4 * int (num_of_knots p)) = Inr (4 * int (num_of_knots p))"
    "int_result (4 * int (num_of_knots p) - 1) = Inr (4 * int (num_of_knots p) - 1)"
    using fits n2 by (simp_all add: int_result_def INT_MIN_def)
  ultimately show ?thesis
    using emit_columns_closed [of "kernel_columns p"]
    by (simp add: CalculateKernel_def fill_columns_closed [OF assms] sc l)
qed

lemma starts_ge: "x \<in> set (starts s cols) \<Longrightarrow> s \<le> x"
proof (induction cols arbitrary: s)
  case Nil
  then show ?case by simp
next
  case (Cons c cols)
  then show ?case by fastforce
qed

lemma starts_le: "x \<in> set (starts s cols) \<Longrightarrow> x \<le> s + int (length (concat cols))"
proof (induction cols arbitrary: s)
  case Nil
  then show ?case by simp
next
  case (Cons c cols)
  then show ?case by fastforce
qed

lemma sorted_starts: "sorted (starts s cols @ [s + int (length (concat cols))])"
proof (induction cols arbitrary: s)
  case Nil
  then show ?case by simp
next
  case (Cons c cols)
  have "sorted (starts (s + int (length c)) cols @
                [s + int (length c) + int (length (concat cols))])"
    by (rule Cons.IH)
  moreover have "\<forall>x \<in> set (starts (s + int (length c)) cols). s \<le> x"
    using starts_ge by fastforce
  ultimately show ?case by (simp add: add.assoc)
qed

lemma indptr_of_columns:
  "length (P_indptr (csc_of_columns cols)) = length cols + 1"
  "hd (P_indptr (csc_of_columns cols)) = 0"
  "sorted (P_indptr (csc_of_columns cols))"
  "last (P_indptr (csc_of_columns cols)) = int (length (concat cols))"
proof -
  show "length (P_indptr (csc_of_columns cols)) = length cols + 1"
    by (simp add: csc_of_columns_def)
  show "hd (P_indptr (csc_of_columns cols)) = 0"
    by (cases cols) (simp_all add: csc_of_columns_def)
  show "sorted (P_indptr (csc_of_columns cols))"
    using sorted_starts [of 0 cols] by (simp add: csc_of_columns_def)
  show "last (P_indptr (csc_of_columns cols)) = int (length (concat cols))"
    by (simp add: csc_of_columns_def)
qed

lemma entries_of_columns:
  "zip (P_indices (csc_of_columns cols)) (P_data (csc_of_columns cols)) =
     concat (map (csc_column (csc_of_columns cols)) [0..<length cols])"
proof -
  have "map (csc_column (csc_of_columns cols)) [0..<length cols] =
        map (\<lambda>c. map (\<lambda>e. (fst e, snd e * 2)) (cols ! c)) [0..<length cols]"
    by (rule map_cong) (simp_all add: csc_column_of_columns)
  also have "\<dots> = map (map (\<lambda>e. (fst e, snd e * 2))) (map (\<lambda>c. cols ! c) [0..<length cols])"
    by simp
  also have "\<dots> = map (map (\<lambda>e. (fst e, snd e * 2))) cols"
    by (simp only: map_nth)
  finally have "concat (map (csc_column (csc_of_columns cols)) [0..<length cols]) =
                map (\<lambda>e. (fst e, snd e * 2)) (concat cols)"
    by (simp add: map_concat)
  moreover have "zip (P_indices (csc_of_columns cols)) (P_data (csc_of_columns cols)) =
                 map (\<lambda>e. (fst e, snd e * 2)) (concat cols)"
    by (simp add: csc_of_columns_def zip_map_map zip_same_conv_map)
  ultimately show ?thesis by simp
qed

lemma kernel_column_signs:
  assumes n2: "2 \<le> num_of_knots p" and len: "length (penalty_dx p) = num_of_knots p"
    and k: "0 \<le> k" "k < 3 * int (num_of_knots p)"
    and w: "weights_nonneg p" and ds: "0 < delta_s p"
    and e: "(r, v) \<in> set (kernel_column p k)"
  shows "(r = k \<longrightarrow> 0 \<le> v) \<and> (r \<noteq> k \<longrightarrow> v \<le> 0 \<and> (0 < weight_dddx p \<longrightarrow> v < 0))"
proof -
  let ?n = "int (num_of_knots p)"
  have ds2: "0 < delta_s p * delta_s p" using ds by simp
  have q: "0 \<le> weight_dddx p / (delta_s p * delta_s p)"
    using w ds2 by (simp add: weights_nonneg_def)
  have q2: "0 \<le> 2 * weight_dddx p / (delta_s p * delta_s p)"
    using w ds2 by (simp add: weights_nonneg_def)
  have qpos: "0 < weight_dddx p \<Longrightarrow> 0 < 2 * weight_dddx p / (delta_s p * delta_s p)"
    using ds2 by simp
  have pen: "0 \<le> penalty_dx p ! nat (k - ?n)" if "?n \<le> k" "k < 2 * ?n"
  proof -
    have "nat (k - ?n) < length (penalty_dx p)" using that len by linarith
    then have "penalty_dx p ! nat (k - ?n) \<in> set (penalty_dx p)" by simp
    then show ?thesis using w by (simp add: weights_nonneg_def)
  qed
  have ws: "0 \<le> weight_x_ref p" "0 \<le> weight_dx_ref p" "0 \<le> weight_ddx p"
    "0 \<le> at3 (weight_end_state p) 0" "0 \<le> at3 (weight_end_state p) 1"
    "0 \<le> at3 (weight_end_state p) 2"
    using w by (simp_all add: weights_nonneg_def)
  consider (a) "k < ?n - 1" | (b) "k = ?n - 1" | (c) "?n \<le> k" "k < 2 * ?n - 1"
    | (d) "k = 2 * ?n - 1" | (e) "k = 2 * ?n" | (f) "2 * ?n < k" "k < 3 * ?n - 1"
    | (g) "k = 3 * ?n - 1"
    using k by linarith
  then show ?thesis
  proof cases
    case a
    then show ?thesis using e ws by (simp add: kernel_column_position)
  next
    case b
    then show ?thesis using e ws by (simp add: kernel_column_position_last)
  next
    case c
    then show ?thesis using e ws pen by (simp add: kernel_column_velocity)
  next
    case d
    have "1 \<le> num_of_knots p" using n2 by simp
    moreover have "0 \<le> penalty_dx p ! (num_of_knots p - 1)"
    proof -
      have "nat (k - ?n) = num_of_knots p - 1" using d n2 by linarith
      then show ?thesis using pen d n2 by simp
    qed
    ultimately show ?thesis
      using e ws d by (simp add: kernel_column_velocity_last)
  next
    case e': e
    have "set (kernel_column p k) =
      {(k, weight_ddx p + weight_dddx p / (delta_s p * delta_s p)),
       (k + 1, - 2 * weight_dddx p / (delta_s p * delta_s p))}"
      using e' n2 by (simp add: kernel_column_acceleration_first)
    then show ?thesis using e ws q q2 qpos by auto
  next
    case f
    have "set (kernel_column p k) =
      {(k, weight_ddx p + 2 * weight_dddx p / (delta_s p * delta_s p)),
       (k + 1, - 2 * weight_dddx p / (delta_s p * delta_s p))}"
      using f by (simp add: kernel_column_acceleration_interior)
    then show ?thesis using e ws q q2 qpos by auto
  next
    case g
    have "set (kernel_column p k) =
      {(k, weight_ddx p + weight_dddx p / (delta_s p * delta_s p)
             + at3 (weight_end_state p) 2)}"
      using g n2 by (simp add: kernel_column_acceleration_last)
    then show ?thesis using e ws q by auto
  qed
qed

lemma rows_csc_column:
  assumes n2: "2 \<le> num_of_knots p" and c: "c < 3 * num_of_knots p"
  shows "map fst (csc_column (csc_of_columns (kernel_columns p)) c) =
     (if 2 * num_of_knots p \<le> c \<and> c < 3 * num_of_knots p - 1
      then [int c, int c + 1] else [int c])"
proof -
  have "(2 * int (num_of_knots p) \<le> int c \<and> int c < 3 * int (num_of_knots p) - 1) =
        (2 * num_of_knots p \<le> c \<and> c < 3 * num_of_knots p - 1)"
    using n2 by linarith
  then show ?thesis
    using rows_kernel_column [OF n2, of "int c"] c
    by (simp add: kernel_csc_column comp_def)
qed

subsection \<open>The class invariant\<close>

lemma knots_ok_new: "knots_ok (new_PiecewiseJerkSpeedProblem base n ds)"
  by (simp add: knots_ok_def new_PiecewiseJerkSpeedProblem_def resize_def)

lemma knots_ok_set_x_ref: "knots_ok p \<Longrightarrow> set_x_ref p w xs = Inr p' \<Longrightarrow> knots_ok p'"
  by (auto simp: knots_ok_def set_x_ref_def split: if_splits)

lemma knots_ok_set_dx_ref: "knots_ok p \<Longrightarrow> knots_ok (set_dx_ref p w d)"
  by (simp add: knots_ok_def set_dx_ref_def)

lemma knots_ok_set_penalty_dx:
  "knots_ok p \<Longrightarrow> set_penalty_dx p ys = Inr p' \<Longrightarrow> knots_ok p'"
  by (auto simp: knots_ok_def set_penalty_dx_def split: if_splits)

lemma knots_ok_set_end_state_ref: "knots_ok p \<Longrightarrow> knots_ok (set_end_state_ref p w r)"
  by (simp add: knots_ok_def set_end_state_ref_def)

lemma knots_okD:
  "knots_ok p \<Longrightarrow> length (penalty_dx p) = num_of_knots p"
  "knots_ok p \<Longrightarrow> has_x_ref p \<longrightarrow> length (x_ref p) = num_of_knots p"
  by (auto simp: knots_ok_def)

subsection \<open>The vector built by CalculateOffset\<close>

lemma length_offset_loop [simp]: "length (offset_loop p q lo hi) = length q"
  by (simp add: offset_loop_def)

lemma nth_offset_loop:
  "k < length q \<Longrightarrow>
   offset_loop p q lo hi ! k =
     q ! k
       + (if has_x_ref p \<and> lo \<le> int k \<and> int k < hi
          then - 2 * weight_x_ref p * x_ref p ! k else 0)
       + (if has_dx_ref p \<and> int (num_of_knots p) + lo \<le> int k
             \<and> int k < int (num_of_knots p) + hi
          then - 2 * weight_dx_ref p * dx_ref p else 0)"
  by (simp add: offset_loop_def)

lemma offset_body_step_nat:
  assumes x: "has_x_ref p \<longrightarrow> length (x_ref p) = num_of_knots p"
    and j: "j < num_of_knots p"
    and q: "2 * num_of_knots p \<le> length q"
  shows "offset_body p (int j) q = Inr (offset_loop p q (int j) (int j + 1))"
proof -
  let ?n = "num_of_knots p"
  let ?a = "- 2 * weight_x_ref p * x_ref p ! j"
  let ?b = "- 2 * weight_dx_ref p * dx_ref p"
  have r: "j < length q" "?n + j < length q" "j \<noteq> ?n + j" using j q by linarith+
  have n: "nat (int ?n + int j) = ?n + j" by linarith
  have h1: "\<And>k. (int j \<le> int k \<and> int k < int j + 1) = (k = j)" by linarith
  have h2: "\<And>k. (int ?n + int j \<le> int k \<and> int k < int ?n + (int j + 1)) = (k = ?n + j)"
    by linarith
  have pt: "\<And>k. k < length q \<Longrightarrow>
     offset_loop p q (int j) (int j + 1) ! k =
       q ! k + (if has_x_ref p \<and> k = j then ?a else 0)
             + (if has_dx_ref p \<and> k = ?n + j then ?b else 0)"
    by (simp add: nth_offset_loop h1 h2)
  show ?thesis
  proof (cases "has_x_ref p")
    case True
    then have lx: "j < length (x_ref p)" using x j by simp
    show ?thesis
    proof (cases "has_dx_ref p")
      case dx: True
      have "offset_body p (int j) q = Inr (q[j := q ! j + ?a, ?n + j := q ! (?n + j) + ?b])"
        using True dx lx r by (simp add: offset_body_def vec_at_def add_at_def n)
      moreover have "q[j := q ! j + ?a, ?n + j := q ! (?n + j) + ?b] =
                     offset_loop p q (int j) (int j + 1)"
        using True dx r by (intro nth_equalityI) (simp_all add: pt nth_list_update)
      ultimately show ?thesis by simp
    next
      case dx: False
      have "offset_body p (int j) q = Inr (q[j := q ! j + ?a])"
        using True dx lx r by (simp add: offset_body_def vec_at_def add_at_def)
      moreover have "q[j := q ! j + ?a] = offset_loop p q (int j) (int j + 1)"
        using True dx r by (intro nth_equalityI) (simp_all add: pt nth_list_update)
      ultimately show ?thesis by simp
    qed
  next
    case False
    show ?thesis
    proof (cases "has_dx_ref p")
      case dx: True
      have "offset_body p (int j) q = Inr (q[?n + j := q ! (?n + j) + ?b])"
        using False dx r by (simp add: offset_body_def add_at_def n)
      moreover have "q[?n + j := q ! (?n + j) + ?b] = offset_loop p q (int j) (int j + 1)"
        using False dx r by (intro nth_equalityI) (simp_all add: pt nth_list_update)
      ultimately show ?thesis by simp
    next
      case dx: False
      have "offset_body p (int j) q = Inr q"
        using False dx by (simp add: offset_body_def)
      moreover have "q = offset_loop p q (int j) (int j + 1)"
        using False dx by (intro nth_equalityI) (simp_all add: pt)
      ultimately show ?thesis by simp
    qed
  qed
qed

lemma offset_body_step:
  assumes x: "has_x_ref p \<longrightarrow> length (x_ref p) = num_of_knots p"
    and i: "0 \<le> i" "i < int (num_of_knots p)"
    and q: "2 * num_of_knots p \<le> length q"
  shows "offset_body p i q = Inr (offset_loop p q i (i + 1))"
proof -
  have "nat i < num_of_knots p" using i by linarith
  from offset_body_step_nat [OF x this q] show ?thesis using i by simp
qed

lemma offset_loop_merge:
  assumes "lo < hi"
  shows "offset_loop p (offset_loop p q lo (lo + 1)) (lo + 1) hi = offset_loop p q lo hi"
proof (rule nth_equalityI)
  show "length (offset_loop p (offset_loop p q lo (lo + 1)) (lo + 1) hi) =
        length (offset_loop p q lo hi)" by simp
next
  fix k assume "k < length (offset_loop p (offset_loop p q lo (lo + 1)) (lo + 1) hi)"
  then have k: "k < length q" by simp
  let ?n = "int (num_of_knots p)"
  define a where "a = - 2 * weight_x_ref p * x_ref p ! k"
  define b where "b = - 2 * weight_dx_ref p * dx_ref p"
  define a1 where "a1 = (if has_x_ref p \<and> lo \<le> int k \<and> int k < lo + 1 then a else 0)"
  define a2 where "a2 = (if has_x_ref p \<and> lo + 1 \<le> int k \<and> int k < hi then a else 0)"
  define a3 where "a3 = (if has_x_ref p \<and> lo \<le> int k \<and> int k < hi then a else 0)"
  define b1 where "b1 = (if has_dx_ref p \<and> ?n + lo \<le> int k \<and> int k < ?n + (lo + 1) then b else 0)"
  define b2 where "b2 = (if has_dx_ref p \<and> ?n + (lo + 1) \<le> int k \<and> int k < ?n + hi then b else 0)"
  define b3 where "b3 = (if has_dx_ref p \<and> ?n + lo \<le> int k \<and> int k < ?n + hi then b else 0)"
  have a: "a1 + a2 = a3"
  proof (cases "int k = lo")
    case True
    then show ?thesis using assms by (simp add: a1_def a2_def a3_def)
  next
    case False
    then have "\<not> (lo \<le> int k \<and> int k < lo + 1)"
      "(lo + 1 \<le> int k \<and> int k < hi) = (lo \<le> int k \<and> int k < hi)" by linarith+
    then show ?thesis by (simp only: a1_def a2_def a3_def) simp
  qed
  have b: "b1 + b2 = b3"
  proof (cases "int k = ?n + lo")
    case True
    then show ?thesis using assms by (simp add: b1_def b2_def b3_def)
  next
    case False
    then have "\<not> (?n + lo \<le> int k \<and> int k < ?n + (lo + 1))"
      "(?n + (lo + 1) \<le> int k \<and> int k < ?n + hi) = (?n + lo \<le> int k \<and> int k < ?n + hi)"
      by linarith+
    then show ?thesis by (simp only: b1_def b2_def b3_def) simp
  qed
  have l: "offset_loop p (offset_loop p q lo (lo + 1)) (lo + 1) hi ! k = q ! k + a1 + b1 + a2 + b2"
    using k by (simp only: nth_offset_loop length_offset_loop a1_def a2_def b1_def b2_def
                  a_def b_def)
  have r: "offset_loop p q lo hi ! k = q ! k + a3 + b3"
    using k by (simp only: nth_offset_loop a3_def b3_def a_def b_def)
  show "offset_loop p (offset_loop p q lo (lo + 1)) (lo + 1) hi ! k = offset_loop p q lo hi ! k"
    unfolding l r using a b by linarith
qed

lemma offset_loop_empty: "hi \<le> lo \<Longrightarrow> offset_loop p q lo hi = q"
  by (rule nth_equalityI) (simp_all add: nth_offset_loop)

lemma offset_for_loop:
  assumes x: "has_x_ref p \<longrightarrow> length (x_ref p) = num_of_knots p"
    and q: "2 * num_of_knots p \<le> length q"
    and lo: "0 \<le> lo" and hi: "hi \<le> int (num_of_knots p)"
  shows "for_loop lo hi (offset_body p) q = Inr (offset_loop p q lo hi)"
  using q lo
proof (induction "nat (hi - lo)" arbitrary: lo q)
  case 0
  then have "hi \<le> lo" by simp
  then show ?case by (simp add: for_loop_done offset_loop_empty)
next
  case (Suc k)
  then have lt: "lo < hi" by linarith
  have step: "offset_body p lo q = Inr (offset_loop p q lo (lo + 1))"
    using x Suc.prems lt hi by (intro offset_body_step) simp_all
  have rest: "for_loop (lo + 1) hi (offset_body p) (offset_loop p q lo (lo + 1)) =
              Inr (offset_loop p (offset_loop p q lo (lo + 1)) (lo + 1) hi)"
    using Suc.hyps(2) Suc.prems by (intro Suc.hyps(1)) simp_all
  show ?case
    using lt step rest by (simp add: for_loop_step offset_loop_merge)
qed

lemma length_offset_end [simp]: "length (offset_end p q) = length q"
  by (simp add: offset_end_def Let_def)

lemma nth_offset_end:
  assumes n: "1 \<le> num_of_knots p" and q: "length q = 3 * num_of_knots p"
    and k: "k < 3 * num_of_knots p"
  shows "offset_end p q ! k =
     q ! k
       + (if has_end_state_ref p \<and> k = num_of_knots p - 1
          then - 2 * at3 (weight_end_state p) 0 * at3 (end_state_ref p) 0 else 0)
       + (if has_end_state_ref p \<and> k = 2 * num_of_knots p - 1
          then - 2 * at3 (weight_end_state p) 1 * at3 (end_state_ref p) 1 else 0)
       + (if has_end_state_ref p \<and> k = 3 * num_of_knots p - 1
          then - 2 * at3 (weight_end_state p) 2 * at3 (end_state_ref p) 2 else 0)"
proof (cases "has_end_state_ref p")
  case False
  then show ?thesis by (simp add: offset_end_def)
next
  case True
  let ?n = "num_of_knots p"
  have d: "?n - 1 \<noteq> 2 * ?n - 1" "?n - 1 \<noteq> 3 * ?n - 1" "2 * ?n - 1 \<noteq> 3 * ?n - 1"
    "?n - 1 < length q" "2 * ?n - 1 < length q" "3 * ?n - 1 < length q"
    using n q by linarith+
  consider (a) "k = ?n - 1" | (b) "k = 2 * ?n - 1" | (c) "k = 3 * ?n - 1"
    | (o) "k \<noteq> ?n - 1" "k \<noteq> 2 * ?n - 1" "k \<noteq> 3 * ?n - 1"
    by blast
  then show ?thesis
  proof cases
    case a
    then show ?thesis using True d by (simp add: offset_end_def Let_def)
  next
    case b
    then show ?thesis using True d by (simp add: offset_end_def Let_def)
  next
    case c
    then show ?thesis using True d by (simp add: offset_end_def Let_def)
  next
    case o
    then show ?thesis using True d k q by (simp add: offset_end_def Let_def)
  qed
qed

lemma CalculateOffset_closed:
  assumes x: "has_x_ref p \<longrightarrow> length (x_ref p) = num_of_knots p"
    and n: "1 \<le> num_of_knots p" and q0: "length q0 \<le> 3 * num_of_knots p"
    and fits: "3 * int (num_of_knots p) \<le> INT_MAX"
  shows "CalculateOffset p (Some q0) =
     Inr (offset_end p
            (offset_loop p (q0 @ replicate (3 * num_of_knots p - length q0) 0) 0
               (int (num_of_knots p))))"
proof -
  let ?n = "num_of_knots p"
  let ?q = "q0 @ replicate (3 * ?n - length q0) 0"
  let ?L = "offset_loop p ?q 0 (int ?n)"
  have sc: "static_cast_int ?n = int ?n"
    using fits by (intro static_cast_int_id) simp
  have i3: "int_result (3 * int ?n) = Inr (3 * int ?n)"
    using fits by (intro int_result_Inr) (simp_all add: INT_MIN_def)
  have rs: "resize_int q0 (3 * int ?n) 0 = Inr ?q"
    using q0 by (simp add: resize_int_def resize_def nat_mult_distrib)
  have len: "length ?q = 3 * ?n" using q0 by simp
  have loop: "for_loop 0 (int ?n) (offset_body p) ?q = Inr ?L"
    using x len by (intro offset_for_loop) simp_all
  have unfold: "CalculateOffset p (Some q0) =
     and_then (for_loop 0 (int ?n) (offset_body p) ?q) (\<lambda>q.
       if has_end_state_ref p
       then
         and_then (add_at q (int ?n - 1)
                     (- 2 * at3 (weight_end_state p) 0 * at3 (end_state_ref p) 0)) (\<lambda>q.
         and_then (add_at q (2 * int ?n - 1)
                     (- 2 * at3 (weight_end_state p) 1 * at3 (end_state_ref p) 1)) (\<lambda>q.
         add_at q (3 * int ?n - 1)
           (- 2 * at3 (weight_end_state p) 2 * at3 (end_state_ref p) 2)))
       else Inr q)"
    by (simp add: CalculateOffset_def offset_body_def Let_def sc i3 rs)
  have i: "nat (int ?n - 1) = ?n - 1" "nat (2 * int ?n - 1) = 2 * ?n - 1"
    "nat (3 * int ?n - 1) = 3 * ?n - 1"
    by linarith+
  have lL: "length ?L = 3 * ?n" using len by simp
  show ?thesis
  proof (cases "has_end_state_ref p")
    case False
    then show ?thesis
      unfolding unfold loop by (simp add: offset_end_def)
  next
    case True
    then show ?thesis
      unfolding unfold loop using n lL
      by (simp add: offset_end_def Let_def add_at_def i)
  qed
qed

subsection \<open>The sparsity pattern depends on the knot count only\<close>

lemma starts_cong_length:
  "map length c1 = map length c2 \<Longrightarrow> starts s c1 = starts s c2"
proof (induction c1 arbitrary: c2 s)
  case Nil
  then show ?case by simp
next
  case (Cons a c1)
  then obtain b c2' where c2: "c2 = b # c2'" by (cases c2) auto
  with Cons.prems have "length a = length b" "map length c1 = map length c2'" by simp_all
  then show ?case using Cons.IH [of c2'] c2 by simp
qed

lemma csc_pattern_cong:
  assumes "map (map fst) c1 = map (map fst) c2"
  shows "P_indices (csc_of_columns c1) = P_indices (csc_of_columns c2)"
    and "P_indptr (csc_of_columns c1) = P_indptr (csc_of_columns c2)"
proof -
  have "map length (map (map fst) c1) = map length (map (map fst) c2)"
    using assms by simp
  then have l: "map length c1 = map length c2" by (simp add: comp_def)
  have "concat (map (map fst) c1) = concat (map (map fst) c2)" using assms by simp
  then show "P_indices (csc_of_columns c1) = P_indices (csc_of_columns c2)"
    by (simp add: csc_of_columns_def map_concat)
  have "length (concat c1) = length (concat c2)"
    using l by (simp add: length_concat)
  then show "P_indptr (csc_of_columns c1) = P_indptr (csc_of_columns c2)"
    using starts_cong_length [OF l] by (simp add: csc_of_columns_def)
qed

lemma rows_kernel_columns:
  assumes "2 \<le> num_of_knots p"
  shows "map (map fst) (kernel_columns p) =
     map (\<lambda>k. if 2 * int (num_of_knots p) \<le> int k \<and> int k < 3 * int (num_of_knots p) - 1
              then [int k, int k + 1] else [int k]) [0..<3 * num_of_knots p]"
  by (simp add: kernel_columns_def rows_kernel_column [OF assms] comp_def)

lemma pattern_weight_independent:
  assumes "2 \<le> num_of_knots p1" "num_of_knots p2 = num_of_knots p1"
    "length (penalty_dx p1) = num_of_knots p1" "length (penalty_dx p2) = num_of_knots p2"
    "4 * int (num_of_knots p1) \<le> INT_MAX"
  shows "\<exists>m1 m2. CalculateKernel p1 csc_empty = Inr m1 \<and> CalculateKernel p2 csc_empty = Inr m2 \<and>
           P_indices m1 = P_indices m2 \<and> P_indptr m1 = P_indptr m2"
proof -
  have n2: "2 \<le> num_of_knots p2" using assms by simp
  have f2: "4 * int (num_of_knots p2) \<le> INT_MAX" using assms by simp
  have "map (map fst) (kernel_columns p1) = map (map fst) (kernel_columns p2)"
    using rows_kernel_columns [OF assms(1)] rows_kernel_columns [OF n2] assms(2) by simp
  from csc_pattern_cong [OF this]
  show ?thesis
    using CalculateKernel_closed [OF assms(1) assms(3) assms(5)]
      CalculateKernel_closed [OF n2 assms(4) f2]
    by simp
qed

text \<open>Every entry of the vector \<open>CalculateOffset\<close> returns for a fresh vector.\<close>

lemma CalculateOffset_entries:
  assumes n: "1 \<le> num_of_knots p"
    and x: "has_x_ref p \<longrightarrow> length (x_ref p) = num_of_knots p"
    and fits: "3 * int (num_of_knots p) \<le> INT_MAX"
  shows "\<exists>q. CalculateOffset p (Some []) = Inr q \<and>
     length q = 3 * num_of_knots p \<and>
     (\<forall>i < num_of_knots p.
        q ! i =
          (if has_x_ref p then - 2 * weight_x_ref p * x_ref p ! i else 0)
          + (if has_end_state_ref p \<and> i = num_of_knots p - 1
             then - 2 * at3 (weight_end_state p) 0 * at3 (end_state_ref p) 0 else 0)) \<and>
     (\<forall>i < num_of_knots p.
        q ! (num_of_knots p + i) =
          (if has_dx_ref p then - 2 * weight_dx_ref p * dx_ref p else 0)
          + (if has_end_state_ref p \<and> i = num_of_knots p - 1
             then - 2 * at3 (weight_end_state p) 1 * at3 (end_state_ref p) 1 else 0)) \<and>
     (\<forall>i < num_of_knots p.
        q ! (2 * num_of_knots p + i) =
          (if has_end_state_ref p \<and> i = num_of_knots p - 1
           then - 2 * at3 (weight_end_state p) 2 * at3 (end_state_ref p) 2 else 0))"
proof -
  let ?n = "num_of_knots p"
  let ?z = "replicate (3 * ?n) (0::real)"
  let ?L = "offset_loop p ?z 0 (int ?n)"
  let ?q = "offset_end p ?L"
  have run: "CalculateOffset p (Some []) = Inr ?q"
    using CalculateOffset_closed [OF x n _ fits, of "[]"] by simp
  have len: "length ?q = 3 * ?n" by simp
  have lL: "length ?L = 3 * ?n" by simp
  have pos: "?q ! i =
          (if has_x_ref p then - 2 * weight_x_ref p * x_ref p ! i else 0)
          + (if has_end_state_ref p \<and> i = ?n - 1
             then - 2 * at3 (weight_end_state p) 0 * at3 (end_state_ref p) 0 else 0)"
    if i: "i < ?n" for i
  proof -
    have k: "i < 3 * ?n" "i \<noteq> 2 * ?n - 1" "i \<noteq> 3 * ?n - 1" "\<not> ?n \<le> i"
      using i by linarith+
    have "?L ! i = (if has_x_ref p then - 2 * weight_x_ref p * x_ref p ! i else 0)"
      using k i by (simp add: nth_offset_loop)
    then show ?thesis
      using nth_offset_end [OF n lL k(1)] k by simp
  qed
  have vel: "?q ! (?n + i) =
          (if has_dx_ref p then - 2 * weight_dx_ref p * dx_ref p else 0)
          + (if has_end_state_ref p \<and> i = ?n - 1
             then - 2 * at3 (weight_end_state p) 1 * at3 (end_state_ref p) 1 else 0)"
    if i: "i < ?n" for i
  proof -
    have k: "?n + i < 3 * ?n" "?n + i \<noteq> ?n - 1" "?n + i \<noteq> 3 * ?n - 1"
      "(?n + i = 2 * ?n - 1) = (i = ?n - 1)"
      using i by linarith+
    have "?L ! (?n + i) = (if has_dx_ref p then - 2 * weight_dx_ref p * dx_ref p else 0)"
      using k i by (simp add: nth_offset_loop)
    then show ?thesis
      using nth_offset_end [OF n lL k(1)] k by simp
  qed
  have acc: "?q ! (2 * ?n + i) =
          (if has_end_state_ref p \<and> i = ?n - 1
           then - 2 * at3 (weight_end_state p) 2 * at3 (end_state_ref p) 2 else 0)"
    if i: "i < ?n" for i
  proof -
    have k: "2 * ?n + i < 3 * ?n" "2 * ?n + i \<noteq> ?n - 1" "2 * ?n + i \<noteq> 2 * ?n - 1"
      "(2 * ?n + i = 3 * ?n - 1) = (i = ?n - 1)"
      using i by linarith+
    have "?L ! (2 * ?n + i) = 0"
      using k i by (simp add: nth_offset_loop)
    then show ?thesis
      using nth_offset_end [OF n lL k(1)] k by simp
  qed
  show ?thesis
    apply (rule exI [of _ ?q])
    apply (intro conjI allI impI)
    using run len pos vel acc
    apply simp_all
    done
qed

subsection \<open>Knot counts beyond the range of int\<close>

lemma kernel_overflow_threshold:
  "num_of_knots p = 536870912 \<Longrightarrow> CalculateKernel p out = Inl IntOverflow"
  by (simp add: CalculateKernel_def fill_columns_def static_cast_int_def int_result_def
        INT_MAX_def INT_MIN_def)

lemma offset_overflow_threshold:
  "num_of_knots p = 715827883 \<Longrightarrow> CalculateOffset p (Some q) = Inl IntOverflow"
  by (simp add: CalculateOffset_def static_cast_int_def int_result_def INT_MAX_def INT_MIN_def)

section \<open>The statements of the specification\<close>

subsection \<open>Setters\<close>

text \<open>
  C6. \<open>set_x_ref\<close> fails its check if and only if the reference vector does not have one
  element per knot, and otherwise stores the vector and the weight and marks the position
  reference active; \<open>set_penalty_dx\<close> fails its check if and only if the penalty vector
  does not have one element per knot, and otherwise replaces the stored penalties. Nothing
  else of the object changes.
\<close>

theorem C6_setters_check_length:
  "(set_x_ref p w xs = Inl CheckFailed \<longleftrightarrow> length xs \<noteq> num_of_knots p) \<and>
   ((\<exists>e. set_x_ref p w xs = Inl e) \<longleftrightarrow> length xs \<noteq> num_of_knots p) \<and>
   (length xs = num_of_knots p \<longrightarrow>
      set_x_ref p w xs = Inr (p\<lparr>x_ref := xs, weight_x_ref := w, has_x_ref := True\<rparr>)) \<and>
   (set_penalty_dx p ys = Inl CheckFailed \<longleftrightarrow> length ys \<noteq> num_of_knots p) \<and>
   ((\<exists>e. set_penalty_dx p ys = Inl e) \<longleftrightarrow> length ys \<noteq> num_of_knots p) \<and>
   (length ys = num_of_knots p \<longrightarrow> set_penalty_dx p ys = Inr (p\<lparr>penalty_dx := ys\<rparr>))"
  by (simp add: set_x_ref_def set_penalty_dx_def)

theorem C6_setters_check_length_witness:
  "set_x_ref three_knots 9 [7, 8, 9] =
     Inr (three_knots\<lparr>x_ref := [7, 8, 9], weight_x_ref := 9, has_x_ref := True\<rparr>) \<and>
   set_x_ref three_knots 9 [7, 8] = Inl CheckFailed \<and>
   set_penalty_dx three_knots [4, 5, 6] = Inr (three_knots\<lparr>penalty_dx := [4, 5, 6]\<rparr>) \<and>
   set_penalty_dx three_knots [4, 5, 6, 7] = Inl CheckFailed"
  using C6_setters_check_length [of three_knots 9 "[7, 8, 9]" "[4, 5, 6]"]
    C6_setters_check_length [of three_knots 9 "[7, 8]" "[4, 5, 6, 7]"]
  by (simp add: three_knots_def)

subsection \<open>The quadratic term\<close>

text \<open>
  C2, as the code has it. For at least two knots, and \<open>4 * n\<close> in the range of
  \<^verbatim>\<open>int\<close> (at most 536870911 knots), the matrix \<open>CalculateKernel\<close> emits holds in column \<open>i\<close>
  of the position block, \<open>i < n - 1\<close>, the single diagonal entry \<open>2 * weight_x_ref\<close>, and
  in column \<open>n - 1\<close> the diagonal entry \<open>2 * (weight_x_ref + weight_end_state[0])\<close>; in
  column \<open>n + i\<close> of the velocity block, \<open>i < n - 1\<close>, the diagonal entry
  \<open>2 * (weight_dx_ref + penalty_dx[i])\<close>, and in column \<open>2n - 1\<close> the diagonal entry
  \<open>2 * (weight_dx_ref + penalty_dx[n - 1] + weight_end_state[1])\<close>.
\<close>

theorem C2_position_velocity_diagonal:
  assumes n2: "2 \<le> num_of_knots p" and len: "length (penalty_dx p) = num_of_knots p"
    and fits: "4 * int (num_of_knots p) \<le> INT_MAX"
  shows "\<exists>m. CalculateKernel p csc_empty = Inr m \<and>
     (\<forall>i < num_of_knots p - 1. csc_column m i = [(int i, 2 * weight_x_ref p)]) \<and>
     csc_column m (num_of_knots p - 1) =
       [(int (num_of_knots p) - 1, 2 * (weight_x_ref p + at3 (weight_end_state p) 0))] \<and>
     (\<forall>i < num_of_knots p - 1.
        csc_column m (num_of_knots p + i) =
          [(int (num_of_knots p) + int i, 2 * (weight_dx_ref p + penalty_dx p ! i))]) \<and>
     csc_column m (2 * num_of_knots p - 1) =
       [(2 * int (num_of_knots p) - 1,
         2 * (weight_dx_ref p + penalty_dx p ! (num_of_knots p - 1)
                + at3 (weight_end_state p) 1))]"
proof -
  let ?n = "num_of_knots p"
  let ?m = "csc_of_columns (kernel_columns p)"
  have run: "CalculateKernel p csc_empty = Inr ?m"
    by (rule CalculateKernel_closed [OF n2 len fits])
  have a: "csc_column ?m i = [(int i, 2 * weight_x_ref p)]" if "i < ?n - 1" for i
  proof -
    have "i < 3 * ?n" "int i < int ?n - 1" using that by linarith+
    then show ?thesis
      by (simp only: kernel_csc_column kernel_column_position) simp
  qed
  have b: "csc_column ?m (?n - 1) =
       [(int ?n - 1, 2 * (weight_x_ref p + at3 (weight_end_state p) 0))]"
  proof -
    have "?n - 1 < 3 * ?n" "int (?n - 1) = int ?n - 1" using n2 by linarith+
    then show ?thesis
      by (simp only: kernel_csc_column kernel_column_position_last) simp
  qed
  have c: "csc_column ?m (?n + i) =
          [(int ?n + int i, 2 * (weight_dx_ref p + penalty_dx p ! i))]" if "i < ?n - 1" for i
  proof -
    have "?n + i < 3 * ?n" "int ?n \<le> int (?n + i)" "int (?n + i) < 2 * int ?n - 1"
      using that by linarith+
    then show ?thesis
      by (simp only: kernel_csc_column kernel_column_velocity) simp
  qed
  have d: "csc_column ?m (2 * ?n - 1) =
       [(2 * int ?n - 1,
         2 * (weight_dx_ref p + penalty_dx p ! (?n - 1) + at3 (weight_end_state p) 1))]"
  proof -
    have "2 * ?n - 1 < 3 * ?n" "int (2 * ?n - 1) = 2 * int ?n - 1" "1 \<le> ?n"
      using n2 by linarith+
    then show ?thesis
      by (simp only: kernel_csc_column kernel_column_velocity_last) simp
  qed
  show ?thesis using run a b c d by blast
qed

theorem C2_position_velocity_diagonal_witness:
  "2 \<le> num_of_knots three_knots \<and> length (penalty_dx three_knots) = num_of_knots three_knots \<and>
   4 * int (num_of_knots three_knots) \<le> INT_MAX \<and>
   (\<exists>m. CalculateKernel three_knots csc_empty = Inr m \<and>
      csc_column m 0 = [(0, 2)] \<and> csc_column m 1 = [(1, 2)] \<and> csc_column m 2 = [(2, 12)] \<and>
      csc_column m 3 = [(3, 6)] \<and> csc_column m 4 = [(4, 8)] \<and> csc_column m 5 = [(5, 22)])"
proof -
  have h: "2 \<le> num_of_knots three_knots"
    "length (penalty_dx three_knots) = num_of_knots three_knots"
    "4 * int (num_of_knots three_knots) \<le> INT_MAX"
    by (simp_all add: three_knots_def INT_MAX_def)
  from C2_position_velocity_diagonal [OF h] obtain m where
    m: "CalculateKernel three_knots csc_empty = Inr m"
    and a: "\<forall>i < num_of_knots three_knots - 1. csc_column m i = [(int i, 2 * weight_x_ref three_knots)]"
    and b: "csc_column m (num_of_knots three_knots - 1) =
       [(int (num_of_knots three_knots) - 1,
         2 * (weight_x_ref three_knots + at3 (weight_end_state three_knots) 0))]"
    and c: "\<forall>i < num_of_knots three_knots - 1.
        csc_column m (num_of_knots three_knots + i) =
          [(int (num_of_knots three_knots) + int i,
            2 * (weight_dx_ref three_knots + penalty_dx three_knots ! i))]"
    and d: "csc_column m (2 * num_of_knots three_knots - 1) =
       [(2 * int (num_of_knots three_knots) - 1,
         2 * (weight_dx_ref three_knots
                + penalty_dx three_knots ! (num_of_knots three_knots - 1)
                + at3 (weight_end_state three_knots) 1))]"
    by blast
  have "csc_column m 0 = [(0, 2)]" "csc_column m 1 = [(1, 2)]"
    using a [rule_format, of 0] a [rule_format, of 1] by (simp_all add: three_knots_def)
  moreover have "csc_column m 2 = [(2, 12)]"
    using b by (simp add: three_knots_def)
  moreover have "csc_column m 3 = [(3, 6)]" "csc_column m 4 = [(4, 8)]"
    using c [rule_format, of 0] c [rule_format, of 1] by (simp_all add: three_knots_def)
  moreover have "csc_column m 5 = [(5, 22)]"
    using d by (simp add: three_knots_def)
  ultimately show ?thesis using h m by blast
qed

text \<open>
  The specification's "for every n >= 2" fails where \<open>3 * n\<close> or \<open>4 * n\<close> leaves the range
  of \<^verbatim>\<open>int\<close>: with 715827883 knots the declaration of \<open>kNumParam\<close> overflows, with
  536870912 knots that of \<open>kNumValue\<close>, and no matrix is produced.
\<close>

theorem C2_int_overflow_counterexample:
  "2 \<le> num_of_knots (many_knots 715827883) \<and>
   length (penalty_dx (many_knots 715827883)) = num_of_knots (many_knots 715827883) \<and>
   \<not> 4 * int (num_of_knots (many_knots 715827883)) \<le> INT_MAX \<and>
   fill_columns (many_knots 715827883) = Inl IntOverflow \<and>
   CalculateKernel (many_knots 715827883) csc_empty = Inl IntOverflow \<and>
   2 \<le> num_of_knots (many_knots 536870912) \<and>
   length (penalty_dx (many_knots 536870912)) = num_of_knots (many_knots 536870912) \<and>
   \<not> 4 * int (num_of_knots (many_knots 536870912)) \<le> INT_MAX \<and>
   fill_columns (many_knots 536870912) = Inl IntOverflow \<and>
   CalculateKernel (many_knots 536870912) csc_empty = Inl IntOverflow"
  by (simp add: many_knots_def three_knots_def CalculateKernel_def fill_columns_def
        static_cast_int_def int_result_def INT_MAX_def INT_MIN_def)

text \<open>
  C1, as the code has it. For at least two knots, \<open>4 * n\<close> in the range of \<^verbatim>\<open>int\<close> (at
  most 536870911 knots) and positive spacing, the columns \<open>CalculateKernel\<close> has
  built when it checks its count hold, in the acceleration block: in column \<open>2n\<close> the
  diagonal coefficient \<open>weight_ddx + weight_dddx / delta_s\<^sup>2\<close>; in every interior column
  \<open>2n + i\<close>, \<open>0 < i < n - 1\<close>, the diagonal coefficient
  \<open>weight_ddx + 2 * weight_dddx / delta_s\<^sup>2\<close>; in the last column \<open>3n - 1\<close> the diagonal
  coefficient \<open>weight_ddx + weight_dddx / delta_s\<^sup>2 + weight_end_state[2]\<close>; and in every
  column \<open>2n + i\<close>, \<open>i < n - 1\<close>, the cross coefficient \<open>- 2 * weight_dddx / delta_s\<^sup>2\<close>
  at row \<open>2n + i + 1\<close>. The emitted values are these stored coefficients, each
  multiplied by 2, in the order of the columns; the emitted rows are the stored rows.
\<close>

theorem C1_acceleration_block_doubled:
  assumes n2: "2 \<le> num_of_knots p" and len: "length (penalty_dx p) = num_of_knots p"
    and ds: "0 < delta_s p"
    and fits: "4 * int (num_of_knots p) \<le> INT_MAX"
  shows "\<exists>cols m.
     fill_columns p = Inr (cols, 4 * int (num_of_knots p) - 1) \<and>
     length cols = 3 * num_of_knots p \<and>
     cols ! (2 * num_of_knots p) =
       [(2 * int (num_of_knots p), weight_ddx p + weight_dddx p / (delta_s p)\<^sup>2),
        (2 * int (num_of_knots p) + 1, - 2 * weight_dddx p / (delta_s p)\<^sup>2)] \<and>
     (\<forall>i. 0 < i \<and> i < num_of_knots p - 1 \<longrightarrow>
        cols ! (2 * num_of_knots p + i) =
          [(2 * int (num_of_knots p) + int i,
            weight_ddx p + 2 * weight_dddx p / (delta_s p)\<^sup>2),
           (2 * int (num_of_knots p) + int i + 1, - 2 * weight_dddx p / (delta_s p)\<^sup>2)]) \<and>
     cols ! (3 * num_of_knots p - 1) =
       [(3 * int (num_of_knots p) - 1,
         weight_ddx p + weight_dddx p / (delta_s p)\<^sup>2 + at3 (weight_end_state p) 2)] \<and>
     CalculateKernel p csc_empty = Inr m \<and>
     P_data m = map (\<lambda>e. 2 * snd e) (concat cols) \<and>
     P_indices m = map fst (concat cols) \<and>
     (\<forall>c < 3 * num_of_knots p. csc_column m c = map (\<lambda>e. (fst e, 2 * snd e)) (cols ! c))"
proof -
  let ?n = "num_of_knots p"
  let ?cols = "kernel_columns p"
  let ?m = "csc_of_columns ?cols"
  have fill: "fill_columns p = Inr (?cols, 4 * int ?n - 1)"
    by (rule fill_columns_closed [OF n2 len fits])
  have run: "CalculateKernel p csc_empty = Inr ?m"
    by (rule CalculateKernel_closed [OF n2 len fits])
  have first: "?cols ! (2 * ?n) =
       [(2 * int ?n, weight_ddx p + weight_dddx p / (delta_s p)\<^sup>2),
        (2 * int ?n + 1, - 2 * weight_dddx p / (delta_s p)\<^sup>2)]"
  proof -
    have "2 * ?n < 3 * ?n" using n2 by linarith
    then show ?thesis
      using kernel_column_acceleration_first [of "2 * int ?n" p] n2
      by (simp add: nth_kernel_columns power2_eq_square)
  qed
  have interior: "?cols ! (2 * ?n + i) =
          [(2 * int ?n + int i, weight_ddx p + 2 * weight_dddx p / (delta_s p)\<^sup>2),
           (2 * int ?n + int i + 1, - 2 * weight_dddx p / (delta_s p)\<^sup>2)]"
    if "0 < i \<and> i < ?n - 1" for i
  proof -
    have "2 * ?n + i < 3 * ?n" "2 * int ?n < 2 * int ?n + int i"
      "2 * int ?n + int i < 3 * int ?n - 1"
      using that by linarith+
    then show ?thesis
      using kernel_column_acceleration_interior [of p "2 * int ?n + int i"]
      by (simp add: nth_kernel_columns power2_eq_square)
  qed
  have last: "?cols ! (3 * ?n - 1) =
       [(3 * int ?n - 1,
         weight_ddx p + weight_dddx p / (delta_s p)\<^sup>2 + at3 (weight_end_state p) 2)]"
  proof -
    have "3 * ?n - 1 < 3 * ?n" "int (3 * ?n - 1) = 3 * int ?n - 1" using n2 by linarith+
    then show ?thesis
      using kernel_column_acceleration_last [of "3 * int ?n - 1" p] n2
      by (simp add: nth_kernel_columns power2_eq_square)
  qed
  have data: "P_data ?m = map (\<lambda>e. 2 * snd e) (concat ?cols)"
    by (simp add: csc_of_columns_def mult.commute)
  have indices: "P_indices ?m = map fst (concat ?cols)"
    by (simp add: csc_of_columns_def)
  have col: "csc_column ?m c = map (\<lambda>e. (fst e, 2 * snd e)) (?cols ! c)"
    if "c < 3 * ?n" for c
    using that csc_column_of_columns [of c ?cols] by (simp add: mult.commute)
  show ?thesis
    using fill run first interior last data indices col length_kernel_columns by blast
qed

theorem C1_acceleration_block_doubled_witness:
  "2 \<le> num_of_knots three_knots \<and> length (penalty_dx three_knots) = num_of_knots three_knots \<and>
   0 < delta_s three_knots \<and> 4 * int (num_of_knots three_knots) \<le> INT_MAX \<and>
   (\<exists>cols m. fill_columns three_knots = Inr (cols, 11) \<and>
      cols ! 6 = [(6, 4), (7, - 2)] \<and> cols ! 7 = [(7, 5), (8, - 2)] \<and> cols ! 8 = [(8, 11)] \<and>
      CalculateKernel three_knots csc_empty = Inr m \<and>
      csc_column m 6 = [(6, 8), (7, - 4)] \<and> csc_column m 7 = [(7, 10), (8, - 4)] \<and>
      csc_column m 8 = [(8, 22)])"
proof -
  have h: "2 \<le> num_of_knots three_knots"
    "length (penalty_dx three_knots) = num_of_knots three_knots" "0 < delta_s three_knots"
    "4 * int (num_of_knots three_knots) \<le> INT_MAX"
    by (simp_all add: three_knots_def INT_MAX_def)
  from C1_acceleration_block_doubled [OF h] obtain cols m where
    fill: "fill_columns three_knots = Inr (cols, 4 * int (num_of_knots three_knots) - 1)"
    and first: "cols ! (2 * num_of_knots three_knots) =
       [(2 * int (num_of_knots three_knots),
         weight_ddx three_knots + weight_dddx three_knots / (delta_s three_knots)\<^sup>2),
        (2 * int (num_of_knots three_knots) + 1,
         - 2 * weight_dddx three_knots / (delta_s three_knots)\<^sup>2)]"
    and interior: "\<forall>i. 0 < i \<and> i < num_of_knots three_knots - 1 \<longrightarrow>
        cols ! (2 * num_of_knots three_knots + i) =
          [(2 * int (num_of_knots three_knots) + int i,
            weight_ddx three_knots + 2 * weight_dddx three_knots / (delta_s three_knots)\<^sup>2),
           (2 * int (num_of_knots three_knots) + int i + 1,
            - 2 * weight_dddx three_knots / (delta_s three_knots)\<^sup>2)]"
    and last: "cols ! (3 * num_of_knots three_knots - 1) =
       [(3 * int (num_of_knots three_knots) - 1,
         weight_ddx three_knots + weight_dddx three_knots / (delta_s three_knots)\<^sup>2
           + at3 (weight_end_state three_knots) 2)]"
    and run: "CalculateKernel three_knots csc_empty = Inr m"
    and col: "\<forall>c < 3 * num_of_knots three_knots.
        csc_column m c = map (\<lambda>e. (fst e, 2 * snd e)) (cols ! c)"
    by blast
  have c6: "cols ! 6 = [(6, 4), (7, - 2)]"
    using first by (simp add: three_knots_def)
  have c7: "cols ! 7 = [(7, 5), (8, - 2)]"
    using interior [rule_format, of 1] by (simp add: three_knots_def)
  have c8: "cols ! 8 = [(8, 11)]"
    using last by (simp add: three_knots_def)
  have "csc_column m 6 = [(6, 8), (7, - 4)]" "csc_column m 7 = [(7, 10), (8, - 4)]"
    "csc_column m 8 = [(8, 22)]"
    using col [rule_format, of 6] col [rule_format, of 7] col [rule_format, of 8] c6 c7 c8
    by (simp_all add: three_knots_def)
  moreover have "fill_columns three_knots = Inr (cols, 11)"
    using fill by (simp add: three_knots_def)
  ultimately show ?thesis using h c6 c7 c8 run by blast
qed

text \<open>
  The specification's "for every n >= 2" fails where \<open>3 * n\<close> or \<open>4 * n\<close> leaves the range
  of \<^verbatim>\<open>int\<close>: with 715827883 knots the declaration of \<open>kNumParam\<close> overflows, with
  536870912 knots that of \<open>kNumValue\<close>, and no matrix is produced.
\<close>

theorem C1_int_overflow_counterexample:
  "2 \<le> num_of_knots (many_knots 715827883) \<and>
   length (penalty_dx (many_knots 715827883)) = num_of_knots (many_knots 715827883) \<and>
   0 < delta_s (many_knots 715827883) \<and>
   \<not> 4 * int (num_of_knots (many_knots 715827883)) \<le> INT_MAX \<and>
   fill_columns (many_knots 715827883) = Inl IntOverflow \<and>
   CalculateKernel (many_knots 715827883) csc_empty = Inl IntOverflow \<and>
   2 \<le> num_of_knots (many_knots 536870912) \<and>
   length (penalty_dx (many_knots 536870912)) = num_of_knots (many_knots 536870912) \<and>
   \<not> 4 * int (num_of_knots (many_knots 536870912)) \<le> INT_MAX \<and>
   fill_columns (many_knots 536870912) = Inl IntOverflow \<and>
   CalculateKernel (many_knots 536870912) csc_empty = Inl IntOverflow"
  by (simp add: many_knots_def three_knots_def CalculateKernel_def fill_columns_def
        static_cast_int_def int_result_def INT_MAX_def INT_MIN_def)

text \<open>
  C10. \<open>CalculateKernel\<close> reads no presence flag: changing \<open>has_x_ref_\<close>,
  \<open>has_dx_ref_\<close> and \<open>has_end_state_ref_\<close> changes nothing of its result. In
  particular, with the end-state reference absent the last diagonal entries of the three
  blocks still contain \<open>weight_end_state[0]\<close>, \<open>[1]\<close> and \<open>[2]\<close>. The flags gate the
  linear term: in the vector \<open>CalculateOffset\<close> returns, the position, velocity and
  end-state contributions are present exactly where the flag of that reference is set.
  The matrix is stated where \<open>4 * n\<close>, the vector where \<open>3 * n\<close>, is in the range of
  \<^verbatim>\<open>int\<close>.
\<close>

theorem C10_kernel_ignores_flags:
  "CalculateKernel (p\<lparr>has_x_ref := a, has_dx_ref := b, has_end_state_ref := c\<rparr>) out =
     CalculateKernel p out \<and>
   (2 \<le> num_of_knots p \<and> 4 * int (num_of_knots p) \<le> INT_MAX \<and>
    length (penalty_dx p) = num_of_knots p \<and> 0 < delta_s p \<and>
    \<not> has_end_state_ref p \<longrightarrow>
      (\<exists>m. CalculateKernel p csc_empty = Inr m \<and>
        csc_column m (num_of_knots p - 1) =
          [(int (num_of_knots p) - 1, 2 * (weight_x_ref p + at3 (weight_end_state p) 0))] \<and>
        csc_column m (2 * num_of_knots p - 1) =
          [(2 * int (num_of_knots p) - 1,
            2 * (weight_dx_ref p + penalty_dx p ! (num_of_knots p - 1)
                   + at3 (weight_end_state p) 1))] \<and>
        csc_column m (3 * num_of_knots p - 1) =
          [(3 * int (num_of_knots p) - 1,
            2 * (weight_ddx p + weight_dddx p / (delta_s p)\<^sup>2
                   + at3 (weight_end_state p) 2))])) \<and>
   (1 \<le> num_of_knots p \<and> 3 * int (num_of_knots p) \<le> INT_MAX \<and>
    (has_x_ref p \<longrightarrow> length (x_ref p) = num_of_knots p) \<longrightarrow>
      (\<exists>q. CalculateOffset p (Some []) = Inr q \<and>
        length q = 3 * num_of_knots p \<and>
        (\<forall>i < num_of_knots p.
           q ! i =
             (if has_x_ref p then - 2 * weight_x_ref p * x_ref p ! i else 0)
             + (if has_end_state_ref p \<and> i = num_of_knots p - 1
                then - 2 * at3 (weight_end_state p) 0 * at3 (end_state_ref p) 0 else 0)) \<and>
        (\<forall>i < num_of_knots p.
           q ! (num_of_knots p + i) =
             (if has_dx_ref p then - 2 * weight_dx_ref p * dx_ref p else 0)
             + (if has_end_state_ref p \<and> i = num_of_knots p - 1
                then - 2 * at3 (weight_end_state p) 1 * at3 (end_state_ref p) 1 else 0)) \<and>
        (\<forall>i < num_of_knots p.
           q ! (2 * num_of_knots p + i) =
             (if has_end_state_ref p \<and> i = num_of_knots p - 1
              then - 2 * at3 (weight_end_state p) 2 * at3 (end_state_ref p) 2 else 0))))"
proof (intro conjI impI)
  show "CalculateKernel (p\<lparr>has_x_ref := a, has_dx_ref := b, has_end_state_ref := c\<rparr>) out =
     CalculateKernel p out"
    by (simp add: CalculateKernel_def fill_columns_def)
next
  let ?n = "num_of_knots p"
  let ?m = "csc_of_columns (kernel_columns p)"
  assume h: "2 \<le> ?n \<and> 4 * int ?n \<le> INT_MAX \<and> length (penalty_dx p) = ?n \<and>
             0 < delta_s p \<and> \<not> has_end_state_ref p"
  then have n2: "2 \<le> ?n" and len: "length (penalty_dx p) = ?n"
    and fits: "4 * int ?n \<le> INT_MAX" by simp_all
  have run: "CalculateKernel p csc_empty = Inr ?m"
    by (rule CalculateKernel_closed [OF n2 len fits])
  have x: "csc_column ?m (?n - 1) =
          [(int ?n - 1, 2 * (weight_x_ref p + at3 (weight_end_state p) 0))]"
  proof -
    have "?n - 1 < 3 * ?n" "int (?n - 1) = int ?n - 1" using n2 by linarith+
    then show ?thesis
      by (simp only: kernel_csc_column kernel_column_position_last) simp
  qed
  have dx: "csc_column ?m (2 * ?n - 1) =
          [(2 * int ?n - 1,
            2 * (weight_dx_ref p + penalty_dx p ! (?n - 1) + at3 (weight_end_state p) 1))]"
  proof -
    have "2 * ?n - 1 < 3 * ?n" "int (2 * ?n - 1) = 2 * int ?n - 1" "1 \<le> ?n"
      using n2 by linarith+
    then show ?thesis
      by (simp only: kernel_csc_column kernel_column_velocity_last) simp
  qed
  have ddx: "csc_column ?m (3 * ?n - 1) =
          [(3 * int ?n - 1,
            2 * (weight_ddx p + weight_dddx p / (delta_s p)\<^sup>2 + at3 (weight_end_state p) 2))]"
  proof -
    have "3 * ?n - 1 < 3 * ?n" "int (3 * ?n - 1) = 3 * int ?n - 1"
      using n2 by linarith+
    then show ?thesis
      using n2 by (simp only: kernel_csc_column kernel_column_acceleration_last)
                  (simp add: power2_eq_square)
  qed
  show "\<exists>m. CalculateKernel p csc_empty = Inr m \<and>
        csc_column m (num_of_knots p - 1) =
          [(int (num_of_knots p) - 1, 2 * (weight_x_ref p + at3 (weight_end_state p) 0))] \<and>
        csc_column m (2 * num_of_knots p - 1) =
          [(2 * int (num_of_knots p) - 1,
            2 * (weight_dx_ref p + penalty_dx p ! (num_of_knots p - 1)
                   + at3 (weight_end_state p) 1))] \<and>
        csc_column m (3 * num_of_knots p - 1) =
          [(3 * int (num_of_knots p) - 1,
            2 * (weight_ddx p + weight_dddx p / (delta_s p)\<^sup>2
                   + at3 (weight_end_state p) 2))]"
    using run x dx ddx by (intro exI [of _ ?m] conjI)
next
  assume g: "1 \<le> num_of_knots p \<and> 3 * int (num_of_knots p) \<le> INT_MAX \<and>
             (has_x_ref p \<longrightarrow> length (x_ref p) = num_of_knots p)"
  then have n: "1 \<le> num_of_knots p" and fits: "3 * int (num_of_knots p) \<le> INT_MAX"
    and x: "has_x_ref p \<longrightarrow> length (x_ref p) = num_of_knots p" by simp_all
  show "\<exists>q. CalculateOffset p (Some []) = Inr q \<and>
        length q = 3 * num_of_knots p \<and>
        (\<forall>i < num_of_knots p.
           q ! i =
             (if has_x_ref p then - 2 * weight_x_ref p * x_ref p ! i else 0)
             + (if has_end_state_ref p \<and> i = num_of_knots p - 1
                then - 2 * at3 (weight_end_state p) 0 * at3 (end_state_ref p) 0 else 0)) \<and>
        (\<forall>i < num_of_knots p.
           q ! (num_of_knots p + i) =
             (if has_dx_ref p then - 2 * weight_dx_ref p * dx_ref p else 0)
             + (if has_end_state_ref p \<and> i = num_of_knots p - 1
                then - 2 * at3 (weight_end_state p) 1 * at3 (end_state_ref p) 1 else 0)) \<and>
        (\<forall>i < num_of_knots p.
           q ! (2 * num_of_knots p + i) =
             (if has_end_state_ref p \<and> i = num_of_knots p - 1
              then - 2 * at3 (weight_end_state p) 2 * at3 (end_state_ref p) 2 else 0))"
    by (rule CalculateOffset_entries [OF n x fits])
qed

theorem C10_kernel_ignores_flags_witness:
  "CalculateKernel
     (concrete_scenario (Array3 0 0 0)
        \<lparr>weight_end_state := Array3 5 6 7, has_x_ref := False, has_dx_ref := False,
         has_end_state_ref := True\<rparr>) csc_empty =
   CalculateKernel (concrete_scenario (Array3 0 0 0)\<lparr>weight_end_state := Array3 5 6 7\<rparr>)
     csc_empty \<and>
   (\<exists>m. CalculateKernel (concrete_scenario (Array3 0 0 0)\<lparr>weight_end_state := Array3 5 6 7\<rparr>)
          csc_empty = Inr m \<and>
        csc_column m 1 = [(1, 12)] \<and> csc_column m 3 = [(3, 14)] \<and> csc_column m 5 = [(5, 18)]) \<and>
   (\<exists>q. CalculateOffset (concrete_scenario (Array3 0 0 0)\<lparr>weight_end_state := Array3 5 6 7\<rparr>)
          (Some []) = Inr q \<and>
        length q = 6 \<and> q ! 0 = - 2 \<and> q ! 1 = - 4 \<and> q ! 2 = - 1 \<and> q ! 3 = - 1 \<and>
        q ! 4 = 0 \<and> q ! 5 = 0)"
proof -
  let ?p = "concrete_scenario (Array3 0 0 0)\<lparr>weight_end_state := Array3 5 6 7\<rparr>"
  note t = C10_kernel_ignores_flags
    [where p = ?p and a = False and b = False and c = True and out = csc_empty]
  have h: "2 \<le> num_of_knots ?p \<and> 4 * int (num_of_knots ?p) \<le> INT_MAX \<and>
           length (penalty_dx ?p) = num_of_knots ?p \<and>
           0 < delta_s ?p \<and> \<not> has_end_state_ref ?p"
    by (simp add: concrete_scenario_def INT_MAX_def)
  have g: "1 \<le> num_of_knots ?p \<and> 3 * int (num_of_knots ?p) \<le> INT_MAX \<and>
           (has_x_ref ?p \<longrightarrow> length (x_ref ?p) = num_of_knots ?p)"
    by (simp add: concrete_scenario_def INT_MAX_def)
  have inst: "CalculateKernel (?p\<lparr>has_x_ref := False, has_dx_ref := False,
                               has_end_state_ref := True\<rparr>) csc_empty =
              CalculateKernel ?p csc_empty"
    by (rule t [THEN conjunct1])
  have "\<exists>m. CalculateKernel ?p csc_empty = Inr m \<and>
        csc_column m (num_of_knots ?p - 1) =
          [(int (num_of_knots ?p) - 1, 2 * (weight_x_ref ?p + at3 (weight_end_state ?p) 0))] \<and>
        csc_column m (2 * num_of_knots ?p - 1) =
          [(2 * int (num_of_knots ?p) - 1,
            2 * (weight_dx_ref ?p + penalty_dx ?p ! (num_of_knots ?p - 1)
                   + at3 (weight_end_state ?p) 1))] \<and>
        csc_column m (3 * num_of_knots ?p - 1) =
          [(3 * int (num_of_knots ?p) - 1,
            2 * (weight_ddx ?p + weight_dddx ?p / (delta_s ?p)\<^sup>2
                   + at3 (weight_end_state ?p) 2))]"
    by (rule t [THEN conjunct2, THEN conjunct1, THEN mp, OF h])
  then obtain m where
    run: "CalculateKernel ?p csc_empty = Inr m"
    and x: "csc_column m (num_of_knots ?p - 1) =
          [(int (num_of_knots ?p) - 1, 2 * (weight_x_ref ?p + at3 (weight_end_state ?p) 0))]"
    and dx: "csc_column m (2 * num_of_knots ?p - 1) =
          [(2 * int (num_of_knots ?p) - 1,
            2 * (weight_dx_ref ?p + penalty_dx ?p ! (num_of_knots ?p - 1)
                   + at3 (weight_end_state ?p) 1))]"
    and ddx: "csc_column m (3 * num_of_knots ?p - 1) =
          [(3 * int (num_of_knots ?p) - 1,
            2 * (weight_ddx ?p + weight_dddx ?p / (delta_s ?p)\<^sup>2
                   + at3 (weight_end_state ?p) 2))]"
    by (elim exE conjE) (rule that, assumption+)
  have "\<exists>q. CalculateOffset ?p (Some []) = Inr q \<and>
        length q = 3 * num_of_knots ?p \<and>
        (\<forall>i < num_of_knots ?p.
           q ! i =
             (if has_x_ref ?p then - 2 * weight_x_ref ?p * x_ref ?p ! i else 0)
             + (if has_end_state_ref ?p \<and> i = num_of_knots ?p - 1
                then - 2 * at3 (weight_end_state ?p) 0 * at3 (end_state_ref ?p) 0 else 0)) \<and>
        (\<forall>i < num_of_knots ?p.
           q ! (num_of_knots ?p + i) =
             (if has_dx_ref ?p then - 2 * weight_dx_ref ?p * dx_ref ?p else 0)
             + (if has_end_state_ref ?p \<and> i = num_of_knots ?p - 1
                then - 2 * at3 (weight_end_state ?p) 1 * at3 (end_state_ref ?p) 1 else 0)) \<and>
        (\<forall>i < num_of_knots ?p.
           q ! (2 * num_of_knots ?p + i) =
             (if has_end_state_ref ?p \<and> i = num_of_knots ?p - 1
              then - 2 * at3 (weight_end_state ?p) 2 * at3 (end_state_ref ?p) 2 else 0))"
    by (rule t [THEN conjunct2, THEN conjunct2, THEN mp, OF g])
  then obtain q where
    off: "CalculateOffset ?p (Some []) = Inr q"
    and len: "length q = 3 * num_of_knots ?p"
    and pos: "\<forall>i < num_of_knots ?p.
           q ! i =
             (if has_x_ref ?p then - 2 * weight_x_ref ?p * x_ref ?p ! i else 0)
             + (if has_end_state_ref ?p \<and> i = num_of_knots ?p - 1
                then - 2 * at3 (weight_end_state ?p) 0 * at3 (end_state_ref ?p) 0 else 0)"
    and vel: "\<forall>i < num_of_knots ?p.
           q ! (num_of_knots ?p + i) =
             (if has_dx_ref ?p then - 2 * weight_dx_ref ?p * dx_ref ?p else 0)
             + (if has_end_state_ref ?p \<and> i = num_of_knots ?p - 1
                then - 2 * at3 (weight_end_state ?p) 1 * at3 (end_state_ref ?p) 1 else 0)"
    and acc: "\<forall>i < num_of_knots ?p.
           q ! (2 * num_of_knots ?p + i) =
             (if has_end_state_ref ?p \<and> i = num_of_knots ?p - 1
              then - 2 * at3 (weight_end_state ?p) 2 * at3 (end_state_ref ?p) 2 else 0)"
    by (elim exE conjE) (rule that, assumption+)
  have c: "csc_column m 1 = [(1, 12)]" "csc_column m 3 = [(3, 14)]" "csc_column m 5 = [(5, 18)]"
    using x dx ddx by (simp_all add: concrete_scenario_def)
  have e: "length q = 6" "q ! 0 = - 2" "q ! 1 = - 4" "q ! 2 = - 1" "q ! 3 = - 1"
    "q ! 4 = 0" "q ! 5 = 0"
    using len pos [rule_format, of 0] pos [rule_format, of 1]
      vel [rule_format, of 0] vel [rule_format, of 1]
      acc [rule_format, of 0] acc [rule_format, of 1]
    by (simp_all add: concrete_scenario_def)
  have k: "\<exists>m. CalculateKernel ?p csc_empty = Inr m \<and>
        csc_column m 1 = [(1, 12)] \<and> csc_column m 3 = [(3, 14)] \<and> csc_column m 5 = [(5, 18)]"
    using run c by (intro exI [of _ m] conjI)
  have o: "\<exists>q. CalculateOffset ?p (Some []) = Inr q \<and>
        length q = 6 \<and> q ! 0 = - 2 \<and> q ! 1 = - 4 \<and> q ! 2 = - 1 \<and> q ! 3 = - 1 \<and>
        q ! 4 = 0 \<and> q ! 5 = 0"
    using off e by (intro exI [of _ q] conjI)
  have inst': "CalculateKernel
     (concrete_scenario (Array3 0 0 0)
        \<lparr>weight_end_state := Array3 5 6 7, has_x_ref := False, has_dx_ref := False,
         has_end_state_ref := True\<rparr>) csc_empty =
   CalculateKernel ?p csc_empty"
    using inst by simp
  show ?thesis using inst' k o by (intro conjI)
qed

text \<open>
  C9. With a single knot, \<open>CalculateKernel\<close> puts two entries with row 2 into column 2,
  the first-knot and the last-knot acceleration coefficient, and has counted 4 entries
  when it compares the count with \<open>4n - 1 = 3\<close>: the check fails and no matrix is
  returned, whatever the output vectors held.
\<close>

theorem C9_single_knot_check_fails:
  assumes n1: "num_of_knots p = 1" and len: "length (penalty_dx p) = 1"
  shows "\<exists>cols.
     fill_columns p = Inr (cols, 4) \<and>
     map (map fst) cols = [[0], [1], [2, 2]] \<and>
     (delta_s p \<noteq> 0 \<longrightarrow>
        cols ! 2 =
          [(2, weight_ddx p + weight_dddx p / (delta_s p)\<^sup>2),
           (2, weight_ddx p + weight_dddx p / (delta_s p)\<^sup>2 + at3 (weight_end_state p) 2)]) \<and>
     4 * int (num_of_knots p) - 1 = 3 \<and>
     CalculateKernel p out = Inl CheckFailed"
proof -
  have fill: "fill_columns p =
     Inr ([[(0, weight_x_ref p + at3 (weight_end_state p) 0)],
           [(1, weight_dx_ref p + penalty_dx p ! 0 + at3 (weight_end_state p) 1)],
           [(2, weight_ddx p + weight_dddx p / (delta_s p * delta_s p)),
            (2, weight_ddx p + weight_dddx p / (delta_s p * delta_s p)
                  + at3 (weight_end_state p) 2)]], 4)"
    by (simp add: fill_columns_def n1 len for_loop_done emplace_back_def vec_at_def
          static_cast_int_def int_result_def resize_int_def resize_def INT_MAX_def
          INT_MIN_def numeral_3_eq_3 Let_def)
  then show ?thesis
    by (simp add: CalculateKernel_def n1 power2_eq_square static_cast_int_def int_result_def
          INT_MAX_def INT_MIN_def)
qed

theorem C9_single_knot_check_fails_witness:
  "num_of_knots (three_knots\<lparr>num_of_knots := 1, penalty_dx := [1]\<rparr>) = 1 \<and>
   length (penalty_dx (three_knots\<lparr>num_of_knots := 1, penalty_dx := [1]\<rparr>)) = 1 \<and>
   (\<exists>cols. fill_columns (three_knots\<lparr>num_of_knots := 1, penalty_dx := [1]\<rparr>) = Inr (cols, 4) \<and>
      map (map fst) cols = [[0], [1], [2, 2]] \<and>
      cols ! 2 = [(2, 4), (2, 11)]) \<and>
   CalculateKernel (three_knots\<lparr>num_of_knots := 1, penalty_dx := [1]\<rparr>) csc_empty =
     Inl CheckFailed"
proof -
  let ?p = "three_knots\<lparr>num_of_knots := 1, penalty_dx := [1]\<rparr>"
  have h: "num_of_knots ?p = 1" "length (penalty_dx ?p) = 1" by simp_all
  have ds: "delta_s ?p \<noteq> 0" by (simp add: three_knots_def)
  from C9_single_knot_check_fails [OF h, of csc_empty] obtain cols where
    fill: "fill_columns ?p = Inr (cols, 4)"
    and rows: "map (map fst) cols = [[0], [1], [2, 2]]"
    and vals: "delta_s ?p \<noteq> 0 \<longrightarrow>
        cols ! 2 =
          [(2, weight_ddx ?p + weight_dddx ?p / (delta_s ?p)\<^sup>2),
           (2, weight_ddx ?p + weight_dddx ?p / (delta_s ?p)\<^sup>2 + at3 (weight_end_state ?p) 2)]"
    and fail: "CalculateKernel ?p csc_empty = Inl CheckFailed"
    by (elim exE conjE) (rule that, assumption+)
  have c2: "cols ! 2 = [(2, 4), (2, 11)]" using vals ds by (simp add: three_knots_def)
  have "\<exists>cols. fill_columns ?p = Inr (cols, 4) \<and> map (map fst) cols = [[0], [1], [2, 2]] \<and>
      cols ! 2 = [(2, 4), (2, 11)]"
    using fill rows c2 by (intro exI conjI)
  then show ?thesis using h fail by (intro conjI)
qed

text \<open>
  C3, as the code has it. For at least two knots, and \<open>4 * n\<close> in the range of
  \<^verbatim>\<open>int\<close> (at most 536870911 knots), the count check passes and
  \<open>CalculateKernel\<close> emits exactly \<open>4n - 1\<close> entries: the entries of columns
  \<open>0, 1, \<dots>, 3n - 1\<close> in this order, where column \<open>c\<close> holds the diagonal entry alone, or,
  for \<open>2n \<le> c < 3n - 1\<close>, the diagonal entry followed by the entry of row \<open>c + 1\<close>. So
  every row index lies in \<open>[c, 3n)\<close> and the rows of a column increase. The column
  offsets have length \<open>3n + 1\<close>, start at 0, do not decrease and end at \<open>4n - 1\<close>. For
  non-negative weights and penalties and positive spacing every diagonal value is
  non-negative and every off-diagonal value is at most zero, and negative when
  \<open>weight_dddx\<close> is positive.
\<close>

theorem C3_sparsity_structure:
  assumes n2: "2 \<le> num_of_knots p" and len: "length (penalty_dx p) = num_of_knots p"
    and fits: "4 * int (num_of_knots p) \<le> INT_MAX"
  shows "\<exists>m cols.
     fill_columns p = Inr (cols, 4 * int (num_of_knots p) - 1) \<and>
     CalculateKernel p csc_empty = Inr m \<and>
     length (P_data m) = 4 * num_of_knots p - 1 \<and>
     length (P_indices m) = 4 * num_of_knots p - 1 \<and>
     zip (P_indices m) (P_data m) = concat (map (csc_column m) [0..<3 * num_of_knots p]) \<and>
     (\<forall>c < 3 * num_of_knots p.
        map fst (csc_column m c) =
          (if 2 * num_of_knots p \<le> c \<and> c < 3 * num_of_knots p - 1
           then [int c, int c + 1] else [int c])) \<and>
     (\<forall>c < 3 * num_of_knots p. \<forall>(r, v) \<in> set (csc_column m c).
        int c \<le> r \<and> r < 3 * int (num_of_knots p)) \<and>
     (\<forall>c < 3 * num_of_knots p. sorted_wrt (<) (map fst (csc_column m c))) \<and>
     length (P_indptr m) = 3 * num_of_knots p + 1 \<and>
     hd (P_indptr m) = 0 \<and>
     sorted (P_indptr m) \<and>
     last (P_indptr m) = 4 * int (num_of_knots p) - 1 \<and>
     (weights_nonneg p \<and> 0 < delta_s p \<longrightarrow>
        (\<forall>c < 3 * num_of_knots p. \<forall>(r, v) \<in> set (csc_column m c).
           (r = int c \<longrightarrow> 0 \<le> v) \<and>
           (r \<noteq> int c \<longrightarrow> v \<le> 0 \<and> (0 < weight_dddx p \<longrightarrow> v < 0))))"
proof -
  let ?n = "num_of_knots p"
  let ?cols = "kernel_columns p"
  let ?m = "csc_of_columns ?cols"
  have fill: "fill_columns p = Inr (?cols, 4 * int ?n - 1)"
    by (rule fill_columns_closed [OF n2 len fits])
  have run: "CalculateKernel p csc_empty = Inr ?m"
    by (rule CalculateKernel_closed [OF n2 len fits])
  have total: "length (concat ?cols) = 4 * ?n - 1"
    by (rule length_concat_kernel_columns [OF n2])
  have data: "length (P_data ?m) = 4 * ?n - 1"
    using total by (simp add: csc_of_columns_def)
  have indices: "length (P_indices ?m) = 4 * ?n - 1"
    using total by (simp add: csc_of_columns_def)
  have entries: "zip (P_indices ?m) (P_data ?m) = concat (map (csc_column ?m) [0..<3 * ?n])"
    using entries_of_columns [of ?cols] by simp
  have rows: "map fst (csc_column ?m c) =
          (if 2 * ?n \<le> c \<and> c < 3 * ?n - 1 then [int c, int c + 1] else [int c])"
    if "c < 3 * ?n" for c
    by (rule rows_csc_column [OF n2 that])
  have range: "\<forall>(r, v) \<in> set (csc_column ?m c). int c \<le> r \<and> r < 3 * int ?n"
    if c: "c < 3 * ?n" for c
  proof -
    have "\<forall>r \<in> set (map fst (csc_column ?m c)). int c \<le> r \<and> r < 3 * int ?n"
      unfolding rows [OF c] using c by auto
    then show ?thesis by auto
  qed
  have order: "sorted_wrt (<) (map fst (csc_column ?m c))" if c: "c < 3 * ?n" for c
    unfolding rows [OF c] by simp
  have ptr: "length (P_indptr ?m) = 3 * ?n + 1" "hd (P_indptr ?m) = 0" "sorted (P_indptr ?m)"
    "last (P_indptr ?m) = 4 * int ?n - 1"
    using indptr_of_columns [of ?cols] total n2 by simp_all
  have signs: "\<forall>(r, v) \<in> set (csc_column ?m c).
           (r = int c \<longrightarrow> 0 \<le> v) \<and>
           (r \<noteq> int c \<longrightarrow> v \<le> 0 \<and> (0 < weight_dddx p \<longrightarrow> v < 0))"
    if w: "weights_nonneg p \<and> 0 < delta_s p" and c: "c < 3 * ?n" for c
  proof (clarify)
    fix r v assume "(r, v) \<in> set (csc_column ?m c)"
    then obtain v0 where v0: "(r, v0) \<in> set (kernel_column p (int c))" and v: "v = v0 * 2"
      using c by (auto simp: kernel_csc_column)
    have "(r = int c \<longrightarrow> 0 \<le> v0) \<and>
          (r \<noteq> int c \<longrightarrow> v0 \<le> 0 \<and> (0 < weight_dddx p \<longrightarrow> v0 < 0))"
      using kernel_column_signs [OF n2 len _ _ _ _ v0] w c by simp
    then show "(r = int c \<longrightarrow> 0 \<le> v) \<and>
           (r \<noteq> int c \<longrightarrow> v \<le> 0 \<and> (0 < weight_dddx p \<longrightarrow> v < 0))"
      using v by simp
  qed
  show ?thesis
    apply (rule exI [of _ ?m], rule exI [of _ ?cols])
    apply (intro conjI allI impI)
    using fill run data indices entries rows range order ptr signs
    apply simp_all
    done
qed

theorem C3_sparsity_structure_witness:
  "2 \<le> num_of_knots three_knots \<and> length (penalty_dx three_knots) = num_of_knots three_knots \<and>
   4 * int (num_of_knots three_knots) \<le> INT_MAX \<and>
   weights_nonneg three_knots \<and> 0 < delta_s three_knots \<and> 0 < weight_dddx three_knots \<and>
   (\<exists>m cols.
      fill_columns three_knots = Inr (cols, 11) \<and>
      CalculateKernel three_knots csc_empty = Inr m \<and>
      length (P_data m) = 11 \<and> length (P_indices m) = 11 \<and>
      map fst (csc_column m 5) = [5] \<and> map fst (csc_column m 6) = [6, 7] \<and>
      map fst (csc_column m 7) = [7, 8] \<and> map fst (csc_column m 8) = [8] \<and>
      length (P_indptr m) = 10 \<and> hd (P_indptr m) = 0 \<and> sorted (P_indptr m) \<and>
      last (P_indptr m) = 11 \<and>
      (\<forall>(r, v) \<in> set (csc_column m 6). (r = 6 \<longrightarrow> 0 \<le> v) \<and> (r \<noteq> 6 \<longrightarrow> v < 0)))"
proof -
  let ?p = three_knots
  have h: "2 \<le> num_of_knots ?p" "length (penalty_dx ?p) = num_of_knots ?p"
    "4 * int (num_of_knots ?p) \<le> INT_MAX"
    by (simp_all add: three_knots_def INT_MAX_def)
  have w: "weights_nonneg ?p \<and> 0 < delta_s ?p"
    by (simp add: weights_nonneg_def three_knots_def)
  have d: "0 < weight_dddx ?p" by (simp add: three_knots_def)
  from C3_sparsity_structure [OF h] obtain m cols where
    fill: "fill_columns ?p = Inr (cols, 4 * int (num_of_knots ?p) - 1)"
    and run: "CalculateKernel ?p csc_empty = Inr m"
    and data: "length (P_data m) = 4 * num_of_knots ?p - 1"
    and indices: "length (P_indices m) = 4 * num_of_knots ?p - 1"
    and rows: "\<forall>c < 3 * num_of_knots ?p.
        map fst (csc_column m c) =
          (if 2 * num_of_knots ?p \<le> c \<and> c < 3 * num_of_knots ?p - 1
           then [int c, int c + 1] else [int c])"
    and ptr: "length (P_indptr m) = 3 * num_of_knots ?p + 1" "hd (P_indptr m) = 0"
      "sorted (P_indptr m)" "last (P_indptr m) = 4 * int (num_of_knots ?p) - 1"
    and signs: "weights_nonneg ?p \<and> 0 < delta_s ?p \<longrightarrow>
        (\<forall>c < 3 * num_of_knots ?p. \<forall>(r, v) \<in> set (csc_column m c).
           (r = int c \<longrightarrow> 0 \<le> v) \<and>
           (r \<noteq> int c \<longrightarrow> v \<le> 0 \<and> (0 < weight_dddx ?p \<longrightarrow> v < 0)))"
    by (elim exE conjE) (rule that, assumption+)
  have n: "num_of_knots ?p = 3" by (simp add: three_knots_def)
  have r: "map fst (csc_column m 5) = [5]" "map fst (csc_column m 6) = [6, 7]"
    "map fst (csc_column m 7) = [7, 8]" "map fst (csc_column m 8) = [8]"
    using rows [rule_format, of 5] rows [rule_format, of 6] rows [rule_format, of 7]
      rows [rule_format, of 8]
    by (simp_all add: n)
  have s: "\<forall>(r, v) \<in> set (csc_column m 6). (r = 6 \<longrightarrow> 0 \<le> v) \<and> (r \<noteq> 6 \<longrightarrow> v < 0)"
    using signs [rule_format, OF w, of 6] d by (auto simp: n)
  have "\<exists>m cols.
      fill_columns ?p = Inr (cols, 11) \<and>
      CalculateKernel ?p csc_empty = Inr m \<and>
      length (P_data m) = 11 \<and> length (P_indices m) = 11 \<and>
      map fst (csc_column m 5) = [5] \<and> map fst (csc_column m 6) = [6, 7] \<and>
      map fst (csc_column m 7) = [7, 8] \<and> map fst (csc_column m 8) = [8] \<and>
      length (P_indptr m) = 10 \<and> hd (P_indptr m) = 0 \<and> sorted (P_indptr m) \<and>
      last (P_indptr m) = 11 \<and>
      (\<forall>(r, v) \<in> set (csc_column m 6). (r = 6 \<longrightarrow> 0 \<le> v) \<and> (r \<noteq> 6 \<longrightarrow> v < 0))"
    apply (rule exI [of _ m], rule exI [of _ cols])
    using fill run data indices r ptr s
    apply (simp add: n)
    done
  then show ?thesis using h w d by (intro conjI) simp_all
qed

text \<open>
  The specification's "every off-diagonal value is negative" fails when the jerk weight
  is zero, and its "for every n >= 2" fails where \<open>3 * n\<close> or \<open>4 * n\<close> leaves the range of
  \<^verbatim>\<open>int\<close> (715827883 knots, 536870912 knots):
  with \<open>weight_dddx = 0\<close> and unit values elsewhere, the entry at row 5 of column 4 is
  \<open>0\<close>.
\<close>

theorem C3_offdiagonal_zero_counterexample:
  "weights_nonneg (concrete_scenario (Array3 0 0 0)\<lparr>weight_dddx := 0\<rparr>) \<and>
   0 < delta_s (concrete_scenario (Array3 0 0 0)\<lparr>weight_dddx := 0\<rparr>) \<and>
   2 \<le> num_of_knots (concrete_scenario (Array3 0 0 0)\<lparr>weight_dddx := 0\<rparr>) \<and>
   length (penalty_dx (concrete_scenario (Array3 0 0 0)\<lparr>weight_dddx := 0\<rparr>)) =
     num_of_knots (concrete_scenario (Array3 0 0 0)\<lparr>weight_dddx := 0\<rparr>) \<and>
   CalculateKernel (concrete_scenario (Array3 0 0 0)\<lparr>weight_dddx := 0\<rparr>) csc_empty =
     Inr \<lparr>P_data = [2, 2, 2, 2, 2, 0, 2], P_indices = [0, 1, 2, 3, 4, 5, 5],
          P_indptr = [0, 1, 2, 3, 4, 6, 7]\<rparr> \<and>
   csc_column \<lparr>P_data = [2, 2, 2, 2, 2, 0, 2], P_indices = [0, 1, 2, 3, 4, 5, 5],
               P_indptr = [0, 1, 2, 3, 4, 6, 7]\<rparr> 4 = [(4, 2), (5, 0)] \<and>
   \<not> snd (csc_column \<lparr>P_data = [2, 2, 2, 2, 2, 0, 2], P_indices = [0, 1, 2, 3, 4, 5, 5],
                      P_indptr = [0, 1, 2, 3, 4, 6, 7]\<rparr> 4 ! 1) < 0 \<and>
   2 \<le> num_of_knots (many_knots 715827883) \<and>
   length (penalty_dx (many_knots 715827883)) = num_of_knots (many_knots 715827883) \<and>
   CalculateKernel (many_knots 715827883) csc_empty = Inl IntOverflow \<and>
   2 \<le> num_of_knots (many_knots 536870912) \<and>
   length (penalty_dx (many_knots 536870912)) = num_of_knots (many_knots 536870912) \<and>
   CalculateKernel (many_knots 536870912) csc_empty = Inl IntOverflow"
proof -
  let ?p = "concrete_scenario (Array3 0 0 0)\<lparr>weight_dddx := 0\<rparr>"
  let ?m = "\<lparr>P_data = [2, 2, 2, 2, 2, 0, 2], P_indices = [0, 1, 2, 3, 4, 5, 5],
            P_indptr = [0, 1, 2, 3, 4, 6, 7]\<rparr> :: csc"
  have w: "weights_nonneg ?p"
    by (simp add: weights_nonneg_def concrete_scenario_def)
  have h: "0 < delta_s ?p" "2 \<le> num_of_knots ?p" "length (penalty_dx ?p) = num_of_knots ?p"
    by (simp_all add: concrete_scenario_def)
  have run: "CalculateKernel ?p csc_empty = Inr ?m"
    by (simp add: CalculateKernel_def fill_columns_def emit_columns_def for_loop.simps
          emplace_back_def vec_at_def concrete_scenario_def csc_empty_def
          static_cast_int_def int_result_def resize_int_def resize_def INT_MAX_def
          INT_MIN_def numeral_eq_Suc)
  have col: "csc_column ?m 4 = [(4, 2), (5, 0)]"
    by (simp add: csc_column_def upt_rec)
  have "\<not> snd (csc_column ?m 4 ! 1) < 0"
    unfolding col by simp
  moreover have "2 \<le> num_of_knots (many_knots 715827883)"
    "length (penalty_dx (many_knots 715827883)) = num_of_knots (many_knots 715827883)"
    "CalculateKernel (many_knots 715827883) csc_empty = Inl IntOverflow"
    "2 \<le> num_of_knots (many_knots 536870912)"
    "length (penalty_dx (many_knots 536870912)) = num_of_knots (many_knots 536870912)"
    "CalculateKernel (many_knots 536870912) csc_empty = Inl IntOverflow"
    by (simp_all add: many_knots_def three_knots_def CalculateKernel_def fill_columns_def
          static_cast_int_def int_result_def INT_MAX_def INT_MIN_def)
  ultimately show ?thesis using w h run col by (intro conjI)
qed

subsection \<open>The linear term\<close>

text \<open>
  C4, as the code has it. For at least one knot, and \<open>3 * n\<close> in the range of \<^verbatim>\<open>int\<close>
  (at most 715827882 knots), \<open>CalculateOffset\<close> on a fresh vector returns a vector \<open>q\<close>
  of length \<open>3n\<close> with, for every knot \<open>i < n\<close>: \<open>q[i]\<close> is
  \<open>- 2 * weight_x_ref * x_ref[i]\<close> if the position reference is active, \<open>q[n + i]\<close> is
  \<open>- 2 * weight_dx_ref * dx_ref\<close> if the velocity reference is active, and if the
  end-state reference is active \<open>- 2 * weight_end_state[k] * end_state_ref[k]\<close> is added
  to \<open>q[n - 1]\<close>, \<open>q[2n - 1]\<close>, \<open>q[3n - 1]\<close> for \<open>k = 0, 1, 2\<close>, on top of what these
  entries hold. Every other contribution is zero. The position reference, when active,
  has one target per knot (the class invariant).
\<close>

theorem C4_linear_term:
  assumes n: "1 \<le> num_of_knots p"
    and x: "has_x_ref p \<longrightarrow> length (x_ref p) = num_of_knots p"
    and fits: "3 * int (num_of_knots p) \<le> INT_MAX"
  shows "\<exists>q. CalculateOffset p (Some []) = Inr q \<and>
     length q = 3 * num_of_knots p \<and>
     (\<forall>i < num_of_knots p.
        q ! i =
          (if has_x_ref p then - 2 * weight_x_ref p * x_ref p ! i else 0)
          + (if has_end_state_ref p \<and> i = num_of_knots p - 1
             then - 2 * at3 (weight_end_state p) 0 * at3 (end_state_ref p) 0 else 0)) \<and>
     (\<forall>i < num_of_knots p.
        q ! (num_of_knots p + i) =
          (if has_dx_ref p then - 2 * weight_dx_ref p * dx_ref p else 0)
          + (if has_end_state_ref p \<and> i = num_of_knots p - 1
             then - 2 * at3 (weight_end_state p) 1 * at3 (end_state_ref p) 1 else 0)) \<and>
     (\<forall>i < num_of_knots p.
        q ! (2 * num_of_knots p + i) =
          (if has_end_state_ref p \<and> i = num_of_knots p - 1
           then - 2 * at3 (weight_end_state p) 2 * at3 (end_state_ref p) 2 else 0))"
  by (rule CalculateOffset_entries [OF n x fits])

theorem C4_linear_term_witness:
  "1 \<le> num_of_knots three_knots \<and> has_x_ref three_knots \<and>
   length (x_ref three_knots) = num_of_knots three_knots \<and>
   3 * int (num_of_knots three_knots) \<le> INT_MAX \<and>
   (\<exists>q. CalculateOffset three_knots (Some []) = Inr q \<and> length q = 9 \<and>
      q ! 0 = - 20 \<and> q ! 1 = - 40 \<and> q ! 2 = - 70 \<and>
      q ! 3 = - 2 \<and> q ! 4 = - 2 \<and> q ! 5 = - 26 \<and>
      q ! 6 = 0 \<and> q ! 7 = 0 \<and> q ! 8 = - 42)"
proof -
  let ?p = three_knots
  have h: "1 \<le> num_of_knots ?p" "has_x_ref ?p \<longrightarrow> length (x_ref ?p) = num_of_knots ?p"
    "3 * int (num_of_knots ?p) \<le> INT_MAX"
    by (simp_all add: three_knots_def INT_MAX_def)
  have h': "has_x_ref ?p" "length (x_ref ?p) = num_of_knots ?p"
    by (simp_all add: three_knots_def)
  have n: "num_of_knots ?p = 3" by (simp add: three_knots_def)
  from C4_linear_term [OF h] obtain q where
    run: "CalculateOffset ?p (Some []) = Inr q"
    and len: "length q = 3 * num_of_knots ?p"
    and pos: "\<forall>i < num_of_knots ?p.
        q ! i =
          (if has_x_ref ?p then - 2 * weight_x_ref ?p * x_ref ?p ! i else 0)
          + (if has_end_state_ref ?p \<and> i = num_of_knots ?p - 1
             then - 2 * at3 (weight_end_state ?p) 0 * at3 (end_state_ref ?p) 0 else 0)"
    and vel: "\<forall>i < num_of_knots ?p.
        q ! (num_of_knots ?p + i) =
          (if has_dx_ref ?p then - 2 * weight_dx_ref ?p * dx_ref ?p else 0)
          + (if has_end_state_ref ?p \<and> i = num_of_knots ?p - 1
             then - 2 * at3 (weight_end_state ?p) 1 * at3 (end_state_ref ?p) 1 else 0)"
    and acc: "\<forall>i < num_of_knots ?p.
        q ! (2 * num_of_knots ?p + i) =
          (if has_end_state_ref ?p \<and> i = num_of_knots ?p - 1
           then - 2 * at3 (weight_end_state ?p) 2 * at3 (end_state_ref ?p) 2 else 0)"
    by (elim exE conjE) (rule that, assumption+)
  have a: "q ! 0 = - 20" "q ! 1 = - 40" "q ! 2 = - 70"
    using pos [rule_format, of 0] pos [rule_format, of 1] pos [rule_format, of 2]
    by (simp_all add: three_knots_def)
  have b: "q ! 3 = - 2" "q ! 4 = - 2" "q ! 5 = - 26"
    using vel [rule_format, of 0] vel [rule_format, of 1] vel [rule_format, of 2]
    by (simp_all add: three_knots_def)
  have c: "q ! 6 = 0" "q ! 7 = 0" "q ! 8 = - 42"
    using acc [rule_format, of 0] acc [rule_format, of 1] acc [rule_format, of 2]
    by (simp_all add: three_knots_def)
  have "length q = 9" using len n by simp
  then have "\<exists>q. CalculateOffset ?p (Some []) = Inr q \<and> length q = 9 \<and>
      q ! 0 = - 20 \<and> q ! 1 = - 40 \<and> q ! 2 = - 70 \<and>
      q ! 3 = - 2 \<and> q ! 4 = - 2 \<and> q ! 5 = - 26 \<and>
      q ! 6 = 0 \<and> q ! 7 = 0 \<and> q ! 8 = - 42"
    using run a b c by (intro exI [of _ q] conjI)
  then show ?thesis using h(1) h' h(3) by (intro conjI)
qed

text \<open>
  The specification's "for every n >= 1" fails where \<open>3 * n\<close> leaves the range of
  \<^verbatim>\<open>int\<close>: with 715827883 knots the declaration of \<open>kNumParam\<close> overflows.
\<close>

theorem C4_int_overflow_counterexample:
  "1 \<le> num_of_knots (many_knots 715827883) \<and>
   has_x_ref (many_knots 715827883) \<and>
   length (x_ref (many_knots 715827883)) = num_of_knots (many_knots 715827883) \<and>
   \<not> 3 * int (num_of_knots (many_knots 715827883)) \<le> INT_MAX \<and>
   CalculateOffset (many_knots 715827883) (Some []) = Inl IntOverflow"
  by (simp add: many_knots_def three_knots_def CalculateOffset_def static_cast_int_def
        int_result_def INT_MAX_def INT_MIN_def)

text \<open>
  C5. If a presence flag is false, \<open>CalculateOffset\<close> returns the same result for any
  two values of that reference's stored weight and target: for the position reference,
  for the velocity reference and for the end-state reference, whatever the vector passed
  in and whatever the knot count.
\<close>

theorem C5_absent_reference:
  "(\<not> has_x_ref p \<longrightarrow>
      CalculateOffset (p\<lparr>weight_x_ref := w1, x_ref := xs1\<rparr>) q =
      CalculateOffset (p\<lparr>weight_x_ref := w2, x_ref := xs2\<rparr>) q) \<and>
   (\<not> has_dx_ref p \<longrightarrow>
      CalculateOffset (p\<lparr>weight_dx_ref := w1, dx_ref := d1\<rparr>) q =
      CalculateOffset (p\<lparr>weight_dx_ref := w2, dx_ref := d2\<rparr>) q) \<and>
   (\<not> has_end_state_ref p \<longrightarrow>
      CalculateOffset (p\<lparr>weight_end_state := a1, end_state_ref := e1\<rparr>) q =
      CalculateOffset (p\<lparr>weight_end_state := a2, end_state_ref := e2\<rparr>) q)"
  by (cases q) (simp_all add: CalculateOffset_def Let_def cong: if_cong)

theorem C5_absent_reference_witness:
  "\<not> has_x_ref (three_knots\<lparr>has_x_ref := False\<rparr>) \<and>
   CalculateOffset (three_knots\<lparr>has_x_ref := False, weight_x_ref := 5, x_ref := [1]\<rparr>) (Some []) =
   CalculateOffset (three_knots\<lparr>has_x_ref := False, weight_x_ref := 7, x_ref := [1, 2, 3]\<rparr>)
     (Some []) \<and>
   \<not> has_dx_ref (three_knots\<lparr>has_dx_ref := False\<rparr>) \<and>
   CalculateOffset (three_knots\<lparr>has_dx_ref := False, weight_dx_ref := 5, dx_ref := 1\<rparr>) (Some []) =
   CalculateOffset (three_knots\<lparr>has_dx_ref := False, weight_dx_ref := 7, dx_ref := 2\<rparr>) (Some []) \<and>
   \<not> has_end_state_ref (three_knots\<lparr>has_end_state_ref := False\<rparr>) \<and>
   CalculateOffset (three_knots\<lparr>has_end_state_ref := False, weight_end_state := Array3 1 1 1,
                      end_state_ref := Array3 2 2 2\<rparr>) (Some []) =
   CalculateOffset (three_knots\<lparr>has_end_state_ref := False, weight_end_state := Array3 3 3 3,
                      end_state_ref := Array3 4 4 4\<rparr>) (Some [])"
  using
    C5_absent_reference [where p = "three_knots\<lparr>has_x_ref := False\<rparr>" and q = "Some []"
          and ?w1.0 = 5 and ?xs1.0 = "[1]" and ?w2.0 = 7 and ?xs2.0 = "[1, 2, 3]"]
    C5_absent_reference [where p = "three_knots\<lparr>has_dx_ref := False\<rparr>" and q = "Some []"
          and ?w1.0 = 5 and ?d1.0 = 1 and ?w2.0 = 7 and ?d2.0 = 2]
    C5_absent_reference [where p = "three_knots\<lparr>has_end_state_ref := False\<rparr>" and q = "Some []"
          and ?a1.0 = "Array3 1 1 1" and ?e1.0 = "Array3 2 2 2"
          and ?a2.0 = "Array3 3 3 3" and ?e2.0 = "Array3 4 4 4"]
  by simp

subsection \<open>The scenarios of the specification\<close>

text \<open>
  C7. In the concrete scenario \<open>CalculateKernel\<close> emits column 0 as (row 0, 2), column 1
  as (row 1, 2), column 2 as (row 2, 2), column 3 as (row 3, 2), column 4 as (row 4, 4),
  (row 5, -4), column 5 as (row 5, 4), with the column offsets \<open>[0, 1, 2, 3, 4, 6, 7]\<close>, and
  \<open>CalculateOffset\<close> returns \<open>[-2, -4, -1, -1, 0, 0]\<close>.
\<close>

theorem C7_concrete_scenario:
  "CalculateKernel (concrete_scenario es) csc_empty =
     Inr \<lparr>P_data = [2, 2, 2, 2, 4, - 4, 4], P_indices = [0, 1, 2, 3, 4, 5, 5],
          P_indptr = [0, 1, 2, 3, 4, 6, 7]\<rparr> \<and>
   map (csc_column \<lparr>P_data = [2, 2, 2, 2, 4, - 4, 4], P_indices = [0, 1, 2, 3, 4, 5, 5],
                    P_indptr = [0, 1, 2, 3, 4, 6, 7]\<rparr>) [0, 1, 2, 3, 4, 5] =
     [[(0, 2)], [(1, 2)], [(2, 2)], [(3, 2)], [(4, 4), (5, - 4)], [(5, 4)]] \<and>
   CalculateOffset (concrete_scenario es) (Some []) = Inr [- 2, - 4, - 1, - 1, 0, 0]"
proof (intro conjI)
  show "CalculateKernel (concrete_scenario es) csc_empty =
     Inr \<lparr>P_data = [2, 2, 2, 2, 4, - 4, 4], P_indices = [0, 1, 2, 3, 4, 5, 5],
          P_indptr = [0, 1, 2, 3, 4, 6, 7]\<rparr>"
    by (simp add: CalculateKernel_def fill_columns_def emit_columns_def for_loop.simps
          emplace_back_def vec_at_def concrete_scenario_def csc_empty_def
          static_cast_int_def int_result_def resize_int_def resize_def INT_MAX_def
          INT_MIN_def numeral_eq_Suc)
  show "map (csc_column \<lparr>P_data = [2, 2, 2, 2, 4, - 4, 4], P_indices = [0, 1, 2, 3, 4, 5, 5],
                    P_indptr = [0, 1, 2, 3, 4, 6, 7]\<rparr>) [0, 1, 2, 3, 4, 5] =
     [[(0, 2)], [(1, 2)], [(2, 2)], [(3, 2)], [(4, 4), (5, - 4)], [(5, 4)]]"
    by (simp add: csc_column_def upt_rec)
  show "CalculateOffset (concrete_scenario es) (Some []) = Inr [- 2, - 4, - 1, - 1, 0, 0]"
    by (simp add: CalculateOffset_def for_loop.simps vec_at_def add_at_def resize_def
          concrete_scenario_def static_cast_int_def int_result_def resize_int_def
          INT_MAX_def INT_MIN_def numeral_eq_Suc)
qed

theorem C7_concrete_scenario_witness:
  "CalculateKernel (concrete_scenario (Array3 0 0 0)) csc_empty =
     Inr \<lparr>P_data = [2, 2, 2, 2, 4, - 4, 4], P_indices = [0, 1, 2, 3, 4, 5, 5],
          P_indptr = [0, 1, 2, 3, 4, 6, 7]\<rparr> \<and>
   CalculateOffset (concrete_scenario (Array3 0 0 0)) (Some []) = Inr [- 2, - 4, - 1, - 1, 0, 0]"
  using C7_concrete_scenario [of "Array3 0 0 0"] by (intro conjI) (elim conjE, assumption)+

text \<open>
  C8. With two knots, every weight zero, the default penalties, no reference active and
  positive spacing, \<open>CalculateKernel\<close> emits seven entries, all of value 0, with the row
  indices and the column offsets of the concrete scenario, and \<open>CalculateOffset\<close> returns
  six zeros. The row indices and the column offsets are the same for any two objects
  with the same knot count, at least two and with \<open>4 * n\<close> in the range of \<^verbatim>\<open>int\<close>: they
  do not depend on a weight.
\<close>

theorem C8_boundary_scenario:
  assumes n: "num_of_knots p = 2"
    and w: "weight_x_ref p = 0" "weight_dx_ref p = 0" "weight_ddx p = 0" "weight_dddx p = 0"
      "weight_end_state p = Array3 0 0 0"
    and pen: "penalty_dx p = [0, 0]"
    and flags: "\<not> has_x_ref p" "\<not> has_dx_ref p" "\<not> has_end_state_ref p"
    and ds: "0 < delta_s p"
  shows "CalculateKernel p csc_empty =
           Inr \<lparr>P_data = [0, 0, 0, 0, 0, 0, 0], P_indices = [0, 1, 2, 3, 4, 5, 5],
                P_indptr = [0, 1, 2, 3, 4, 6, 7]\<rparr> \<and>
         CalculateOffset p (Some []) = Inr [0, 0, 0, 0, 0, 0] \<and>
         (\<forall>p1 p2. 2 \<le> num_of_knots p1 \<and> 4 * int (num_of_knots p1) \<le> INT_MAX \<and>
             num_of_knots p2 = num_of_knots p1 \<and>
             length (penalty_dx p1) = num_of_knots p1 \<and>
             length (penalty_dx p2) = num_of_knots p2 \<longrightarrow>
             (\<exists>m1 m2. CalculateKernel p1 csc_empty = Inr m1 \<and>
                CalculateKernel p2 csc_empty = Inr m2 \<and>
                P_indices m1 = P_indices m2 \<and> P_indptr m1 = P_indptr m2))"
proof (intro conjI allI impI)
  show "CalculateKernel p csc_empty =
           Inr \<lparr>P_data = [0, 0, 0, 0, 0, 0, 0], P_indices = [0, 1, 2, 3, 4, 5, 5],
                P_indptr = [0, 1, 2, 3, 4, 6, 7]\<rparr>"
    using ds
    by (simp add: CalculateKernel_def fill_columns_def emit_columns_def for_loop.simps
          emplace_back_def vec_at_def csc_empty_def n w pen
          static_cast_int_def int_result_def resize_int_def resize_def INT_MAX_def
          INT_MIN_def numeral_eq_Suc)
  show "CalculateOffset p (Some []) = Inr [0, 0, 0, 0, 0, 0]"
    by (simp add: CalculateOffset_def for_loop.simps resize_def n flags
          static_cast_int_def int_result_def resize_int_def INT_MAX_def INT_MIN_def
          numeral_eq_Suc)
next
  fix p1 p2 :: PiecewiseJerkSpeedProblem
  assume "2 \<le> num_of_knots p1 \<and> 4 * int (num_of_knots p1) \<le> INT_MAX \<and>
             num_of_knots p2 = num_of_knots p1 \<and>
             length (penalty_dx p1) = num_of_knots p1 \<and>
             length (penalty_dx p2) = num_of_knots p2"
  then show "\<exists>m1 m2. CalculateKernel p1 csc_empty = Inr m1 \<and>
                CalculateKernel p2 csc_empty = Inr m2 \<and>
                P_indices m1 = P_indices m2 \<and> P_indptr m1 = P_indptr m2"
    using pattern_weight_independent [of p1 p2] by blast
qed

theorem C8_boundary_scenario_witness:
  "num_of_knots boundary_scenario = 2 \<and> weight_x_ref boundary_scenario = 0 \<and>
   weight_dx_ref boundary_scenario = 0 \<and> weight_ddx boundary_scenario = 0 \<and>
   weight_dddx boundary_scenario = 0 \<and> weight_end_state boundary_scenario = Array3 0 0 0 \<and>
   penalty_dx boundary_scenario = [0, 0] \<and> \<not> has_x_ref boundary_scenario \<and>
   \<not> has_dx_ref boundary_scenario \<and> \<not> has_end_state_ref boundary_scenario \<and>
   0 < delta_s boundary_scenario \<and>
   CalculateKernel boundary_scenario csc_empty =
     Inr \<lparr>P_data = [0, 0, 0, 0, 0, 0, 0], P_indices = [0, 1, 2, 3, 4, 5, 5],
          P_indptr = [0, 1, 2, 3, 4, 6, 7]\<rparr> \<and>
   CalculateOffset boundary_scenario (Some []) = Inr [0, 0, 0, 0, 0, 0] \<and>
   (\<exists>m1 m2. CalculateKernel boundary_scenario csc_empty = Inr m1 \<and>
      CalculateKernel (concrete_scenario (Array3 0 0 0)) csc_empty = Inr m2 \<and>
      P_indices m1 = P_indices m2 \<and> P_indptr m1 = P_indptr m2)"
proof -
  let ?p = boundary_scenario
  let ?p2 = "concrete_scenario (Array3 0 0 0)"
  have h: "num_of_knots ?p = 2" "weight_x_ref ?p = 0" "weight_dx_ref ?p = 0" "weight_ddx ?p = 0"
    "weight_dddx ?p = 0" "weight_end_state ?p = Array3 0 0 0" "penalty_dx ?p = [0, 0]"
    "\<not> has_x_ref ?p" "\<not> has_dx_ref ?p" "\<not> has_end_state_ref ?p" "0 < delta_s ?p"
    by (simp_all add: boundary_scenario_def)
  note t = C8_boundary_scenario [OF h]
  have k: "CalculateKernel ?p csc_empty =
     Inr \<lparr>P_data = [0, 0, 0, 0, 0, 0, 0], P_indices = [0, 1, 2, 3, 4, 5, 5],
          P_indptr = [0, 1, 2, 3, 4, 6, 7]\<rparr>"
    by (rule t [THEN conjunct1])
  have o: "CalculateOffset ?p (Some []) = Inr [0, 0, 0, 0, 0, 0]"
    by (rule t [THEN conjunct2, THEN conjunct1])
  have g: "\<forall>p1 p2. 2 \<le> num_of_knots p1 \<and> 4 * int (num_of_knots p1) \<le> INT_MAX \<and>
             num_of_knots p2 = num_of_knots p1 \<and>
             length (penalty_dx p1) = num_of_knots p1 \<and>
             length (penalty_dx p2) = num_of_knots p2 \<longrightarrow>
             (\<exists>m1 m2. CalculateKernel p1 csc_empty = Inr m1 \<and>
                CalculateKernel p2 csc_empty = Inr m2 \<and>
                P_indices m1 = P_indices m2 \<and> P_indptr m1 = P_indptr m2)"
    by (rule t [THEN conjunct2, THEN conjunct2])
  have "2 \<le> num_of_knots ?p \<and> 4 * int (num_of_knots ?p) \<le> INT_MAX \<and>
             num_of_knots ?p2 = num_of_knots ?p \<and>
             length (penalty_dx ?p) = num_of_knots ?p \<and>
             length (penalty_dx ?p2) = num_of_knots ?p2"
    by (simp add: boundary_scenario_def concrete_scenario_def INT_MAX_def)
  with g have e: "\<exists>m1 m2. CalculateKernel ?p csc_empty = Inr m1 \<and>
      CalculateKernel ?p2 csc_empty = Inr m2 \<and>
      P_indices m1 = P_indices m2 \<and> P_indptr m1 = P_indptr m2"
    by (elim allE impE) assumption+
  show ?thesis using h k o e by (intro conjI)
qed

end
